theory Spec2Isabelle
  imports Complex_Main "HOL-Library.Word"
begin

unbundle bit_operations_syntax

section \<open>C doubles\<close>

text \<open>
  The duration functions of \<^verbatim>\<open>ffdecode.c\<close> compute in \<^verbatim>\<open>double\<close> and use NaN as the
  "unknown" value. A double is modelled by the real number it stands for, or one of the
  three special values. Rounding is not modelled: every theorem below is about which
  branch is taken and which exact quotient or product is returned. The one place where
  a rounded quotient is cast to an integer, the seek step of the precise duration, is
  left to the library record (\<open>window_step\<close>). Signed zero is not
  distinguished; a zero divisor is taken as \<^verbatim>\<open>+0.0\<close>, which is what the code divides by
  (its only possibly-zero divisors are integers converted to double).
\<close>

datatype double = NaN | PInf | NInf | Fin real

definition d_of_int :: "int \<Rightarrow> double" where
  "d_of_int i = Fin (real_of_int i)"

text \<open>The C comparison \<^verbatim>\<open>x > 0\<close>: false for NaN.\<close>

fun d_gt0 :: "double \<Rightarrow> bool" where
  "d_gt0 NaN = False"
| "d_gt0 PInf = True"
| "d_gt0 NInf = False"
| "d_gt0 (Fin x) = (0 < x)"

fun d_sign :: "double \<Rightarrow> int" where
  "d_sign NaN = 0"
| "d_sign PInf = 1"
| "d_sign NInf = - 1"
| "d_sign (Fin x) = (if 0 < x then 1 else if x < 0 then - 1 else 0)"

definition d_inf :: "int \<Rightarrow> double" where
  "d_inf s = (if s = 0 then NaN else if 0 < s then PInf else NInf)"

fun d_mul :: "double \<Rightarrow> double \<Rightarrow> double" where
  "d_mul NaN y = NaN"
| "d_mul x NaN = NaN"
| "d_mul (Fin a) (Fin b) = Fin (a * b)"
| "d_mul x y = d_inf (d_sign x * d_sign y)"

fun d_div :: "double \<Rightarrow> double \<Rightarrow> double" where
  "d_div NaN y = NaN"
| "d_div x NaN = NaN"
| "d_div (Fin a) (Fin b) = (if b = 0 then d_inf (d_sign (Fin a)) else Fin (a / b))"
| "d_div (Fin a) y = Fin 0"
| "d_div x (Fin b) = d_inf (d_sign x * (if b < 0 then - 1 else 1))"
| "d_div x y = NaN"

section \<open>The library's data, as the code reads it\<close>

definition AV_TIME_BASE :: int where
  "AV_TIME_BASE = 1000000"

definition AV_NOPTS_VALUE :: int where
  "AV_NOPTS_VALUE = - (2 ^ 63)"

text \<open>
  Signed 64-bit arithmetic. The fields below are \<^verbatim>\<open>int64_t\<close> in C and \<open>int\<close> here; where
  the code computes with them the two's complement result is written out.
\<close>

definition wrap64 :: "int \<Rightarrow> int" where
  "wrap64 x = (x + 2 ^ 63) mod 2 ^ 64 - 2 ^ 63"

record AVRational =
  num :: int
  den :: int

definition av_q2d :: "AVRational \<Rightarrow> double" where
  "av_q2d a = d_div (d_of_int (num a)) (d_of_int (den a))"

record AVPacket =
  stream_index :: int
  pts :: int
  dts :: int

record AVStream =
  time_base :: AVRational
  s_duration :: int
  nb_frames :: int
  avg_frame_rate :: AVRational
  r_frame_rate :: AVRational
  codec_name :: "string option"
  codec_tag :: "32 word"

record AVFormatContext =
  f_duration :: int
  bit_rate :: int
  pb :: bool

text \<open>
  What the demuxing library answers for one path: the return codes of
  \<^verbatim>\<open>avformat_open_input\<close>, \<^verbatim>\<open>avformat_find_stream_info\<close> and
  \<^verbatim>\<open>av_find_best_stream\<close>, the format context after stream info was read, the stream
  \<^verbatim>\<open>fmt->streams[vindex]\<close> (read only when \<open>best_stream\<close> is not negative), the
  result of \<^verbatim>\<open>avio_size(fmt->pb)\<close>, and what decoder set-up in \<^verbatim>\<open>ff_open\<close> meets.
  \<open>codec_name\<close> of the stream is \<^verbatim>\<open>avcodec_get_name(codecpar->codec_id)\<close>
  (\<open>None\<close> for a null pointer), \<open>pb\<close> says that \<^verbatim>\<open>fmt->pb\<close> is not null.
\<close>

record container =
  open_input_rc :: int
  stream_info_rc :: int
  fmtctx :: AVFormatContext
  best_stream :: int
  vstream_of :: AVStream
  avio_size_rc :: int
  calloc_ok :: bool
  find_decoder_ok :: bool
  alloc_context_ok :: bool
  parameters_rc :: int
  open2_rc :: int
  frame_alloc_ok :: bool
  packet_alloc_ok :: bool
  dec_width :: int
  dec_height :: int

text \<open>A path is a C string or the null pointer (\<open>None\<close>).\<close>

type_synonym world = "string option \<Rightarrow> container"

section \<open>Duration estimators\<close>

text \<open>
  The three fallback blocks of \<^verbatim>\<open>ff_probe_duration\<close>, each taking the value of \<^verbatim>\<open>dur\<close>
  so far and giving the value after the block. \<open>vs\<close> is \<open>None\<close> when the stream
  pointer is null.
\<close>

definition probe_stream_duration :: "AVStream option \<Rightarrow> double \<Rightarrow> double" where
  "probe_stream_duration vs dur =
    (case vs of
       Some s \<Rightarrow>
         if \<not> d_gt0 dur \<and> s_duration s > 0
         then let tb = time_base s in d_mul (d_of_int (s_duration s)) (av_q2d tb)
         else dur
     | None \<Rightarrow> dur)"

definition probe_frame_count :: "AVStream option \<Rightarrow> double \<Rightarrow> double" where
  "probe_frame_count vs dur =
    (case vs of
       Some s \<Rightarrow>
         if \<not> d_gt0 dur \<and> nb_frames s > 0
         then let afr = (if num (avg_frame_rate s) > 0
                         then avg_frame_rate s else r_frame_rate s);
                  fps = (if den afr > 0
                         then d_div (d_of_int (num afr)) (d_of_int (den afr))
                         else Fin 0)
              in if d_gt0 fps then d_div (d_of_int (nb_frames s)) fps else dur
         else dur
     | None \<Rightarrow> dur)"

definition probe_bit_rate :: "container \<Rightarrow> double \<Rightarrow> double" where
  "probe_bit_rate c dur =
    (if \<not> d_gt0 dur \<and> bit_rate (fmtctx c) > 0 \<and> pb (fmtctx c)
     then let sz = avio_size_rc c
          in if sz > 0
             then d_div (d_of_int (wrap64 (sz * 8))) (d_of_int (bit_rate (fmtctx c)))
             else dur
     else dur)"

definition ff_probe_duration :: "world \<Rightarrow> string option \<Rightarrow> double" where
  "ff_probe_duration W path =
    (let c = W path in
     if open_input_rc c \<noteq> 0 then NaN
     else if stream_info_rc c < 0 then NaN
     else
       let dur = NaN;
           dur = (if f_duration (fmtctx c) > 0
                  then d_div (d_of_int (f_duration (fmtctx c))) (d_of_int AV_TIME_BASE)
                  else dur);
           vindex = best_stream c;
           vs = (if vindex \<ge> 0 then Some (vstream_of c) else None);
           dur = probe_stream_duration vs dur;
           dur = probe_frame_count vs dur;
           dur = probe_bit_rate c dur
       in if d_gt0 dur then dur else NaN)"

definition ff_frame_accurate_duration :: "world \<Rightarrow> string option \<Rightarrow> double" where
  "ff_frame_accurate_duration W path =
    (if path = None then NaN
     else
       let c = W path in
       if open_input_rc c \<noteq> 0 then NaN
       else if stream_info_rc c < 0 then NaN
       else
         let out = NaN;
             vindex = best_stream c;
             out = (if vindex \<ge> 0
                    then let vs = vstream_of c;
                             afr = (if num (avg_frame_rate vs) > 0
                                    then avg_frame_rate vs else r_frame_rate vs)
                         in if num afr > 0 \<and> den afr > 0 \<and> nb_frames vs > 0
                            then d_mul (d_of_int (nb_frames vs))
                                       (d_div (d_of_int (den afr)) (d_of_int (num afr)))
                            else if s_duration vs \<noteq> AV_NOPTS_VALUE
                            then d_mul (d_of_int (s_duration vs)) (av_q2d (time_base vs))
                            else out
                    else out)
         in if d_gt0 out then out else NaN)"

definition ff_format_duration :: "world \<Rightarrow> string option \<Rightarrow> double" where
  "ff_format_duration W path =
    (if path = None then NaN
     else
       let c = W path; fmt = fmtctx c in
       if open_input_rc c \<noteq> 0 then NaN
       else if stream_info_rc c < 0 then NaN
       else
         let dur = NaN;
             dur = (if f_duration fmt > 0
                    then d_div (d_of_int (f_duration fmt)) (d_of_int AV_TIME_BASE) else dur)
         in if d_gt0 dur then dur else NaN)"

section \<open>Codec identifier\<close>

text \<open>
  The five-byte buffer \<^verbatim>\<open>tagstr\<close> that \<^verbatim>\<open>ff_is_notchlc\<close> fills from the codec tag, and the
  C string it holds: the bytes before the first zero byte.
\<close>

definition tagstr :: "32 word \<Rightarrow> 8 word list" where
  "tagstr tag =
    [ucast (tag AND 0xFF), ucast (drop_bit 8 tag AND 0xFF),
     ucast (drop_bit 16 tag AND 0xFF), ucast (drop_bit 24 tag AND 0xFF), 0]"

definition c_str :: "8 word list \<Rightarrow> 8 word list" where
  "c_str buf = takeWhile (\<lambda>b. b \<noteq> 0) buf"

definition c_lit :: "string \<Rightarrow> 8 word list" where
  "c_lit s = map of_char s"

definition ff_is_notchlc :: "world \<Rightarrow> string option \<Rightarrow> int" where
  "ff_is_notchlc W path =
    (if path = None then - 1
     else
       let c = W path in
       if open_input_rc c \<noteq> 0 then - 1
       else if stream_info_rc c < 0 then - 1
       else
         let vindex = best_stream c in
         if vindex < 0 then - 1
         else
           let vs = vstream_of c;
               is_notch =
                 (if codec_name vs = Some ''notchlc'' then True
                  else let tag = codec_tag vs
                       in if tag \<noteq> 0 then c_str (tagstr tag) = c_lit ''nclc'' else False)
           in if is_notch then 1 else 0)"

section \<open>Library calls and their trace\<close>

text \<open>
  Seeking, reading, decoding, conversion and buffer allocation are done by FFmpeg and
  CoreVideo, which are not part of this code. They are parameters of the model: each call
  is answered by a function of the calls made so far (the trace), so an answer may depend
  on everything that happened before, and the trace records what the code asked and in
  which order.
\<close>

text \<open>
  One event per library call, with its arguments and answer where they matter:
  \<open>EvSeekFile r\<close> is \<^verbatim>\<open>avformat_seek_file\<close> returning \<open>r\<close>, \<open>EvSeekFrame ts r\<close> is
  \<^verbatim>\<open>av_seek_frame\<close> to \<open>ts\<close> returning \<open>r\<close>, \<open>EvRead r p\<close> is \<^verbatim>\<open>av_read_frame\<close>
  returning \<open>r\<close> with packet \<open>p\<close>, \<open>EvSend p r\<close> is \<^verbatim>\<open>avcodec_send_packet\<close> of
  \<open>p\<close> (\<open>None\<close> is the drain marker) returning \<open>r\<close>, \<open>EvRecv r ts\<close> is
  \<^verbatim>\<open>avcodec_receive_frame\<close> returning \<open>r\<close> with a frame stamped \<open>ts\<close>. The last six
  are the releases made by \<^verbatim>\<open>ff_close\<close>.
\<close>

datatype event =
    EvSeekFile int
  | EvSeekFrame int int
  | EvPacketAlloc bool
  | EvRead int AVPacket
  | EvSend "AVPacket option" int
  | EvRecv int int
  | EvSwsGetContext bool
  | EvPixelBufferCreate "nat option"
  | EvSwsScale
  | EvSwsFree
  | EvFrameFree
  | EvPacketFree
  | EvCodecFree
  | EvCloseInput
  | EvFree

type_synonym trace = "event list"

text \<open>
  \<open>av_read_frame\<close> answers with its return code and the packet it filled in;
  \<open>avcodec_receive_frame\<close> with its return code and the frame's
  \<^verbatim>\<open>best_effort_timestamp\<close>; \<open>av_packet_alloc\<close> and \<open>sws_getContext\<close> say
  whether the pointer they return is not null; \<open>CVPixelBufferCreate\<close> gives the new
  buffer, or \<open>None\<close> for a result other than \<^verbatim>\<open>kCVReturnSuccess\<close>.
  \<open>window_step w tb\<close> is the value of \<^verbatim>\<open>(int64_t)(windows_sec[w] / av_q2d(tb))\<close>: the
  division is rounded to a double before the cast truncates it, and the cast is
  undefined out of range, so the integer is the platform's to give and is not computed
  from the exact quotient here.
\<close>

record avlib =
  av_rescale_q :: "int \<Rightarrow> AVRational \<Rightarrow> AVRational \<Rightarrow> int"
  window_step :: "double \<Rightarrow> AVRational \<Rightarrow> int"
  avformat_seek_file :: "trace \<Rightarrow> int"
  av_seek_frame :: "trace \<Rightarrow> int \<Rightarrow> int"
  av_packet_alloc :: "trace \<Rightarrow> bool"
  av_read_frame :: "trace \<Rightarrow> int \<times> AVPacket"
  avcodec_send_packet :: "trace \<Rightarrow> AVPacket option \<Rightarrow> int"
  avcodec_receive_frame :: "trace \<Rightarrow> int \<times> int"
  sws_getContext :: "trace \<Rightarrow> bool"
  CVPixelBufferCreate :: "trace \<Rightarrow> nat option"

text \<open>
  \<^verbatim>\<open>AVERROR_EOF\<close> is \<^verbatim>\<open>-MKTAG('E','O','F',' ')\<close> in libavutil; \<^verbatim>\<open>AVERROR(EAGAIN)\<close> is
  \<^verbatim>\<open>-EAGAIN\<close>, and \<^verbatim>\<open>EAGAIN\<close> is 35 on the platform of CoreVideo.
\<close>

definition AVERROR_EOF :: int where
  "AVERROR_EOF = - 541478725"

definition AVERROR_EAGAIN :: int where
  "AVERROR_EAGAIN = - 35"

definition INT64_MAX :: int where
  "INT64_MAX = 2 ^ 63 - 1"

definition AV_TIME_BASE_Q :: AVRational where
  "AV_TIME_BASE_Q = \<lparr>num = 1, den = AV_TIME_BASE\<rparr>"

section \<open>Precise duration\<close>

definition try_seek_to_end :: "avlib \<Rightarrow> container \<Rightarrow> trace \<Rightarrow> int \<times> trace" where
  "try_seek_to_end L c t =
    (let r1 = avformat_seek_file L t; t1 = t @ [EvSeekFile r1] in
     if r1 \<ge> 0 then (0, t1)
     else
       let vs = vstream_of c; fmt = fmtctx c;
           (hit2, t2) =
             (if f_duration fmt > 0
              then let ts = av_rescale_q L (wrap64 (f_duration fmt - 1)) AV_TIME_BASE_Q
                              (time_base vs);
                       r = av_seek_frame L t1 ts
                   in (r \<ge> 0, t1 @ [EvSeekFrame ts r])
              else (False, t1))
       in if hit2 then (0, t2)
          else
            let (hit3, t3) =
                  (if s_duration vs \<noteq> AV_NOPTS_VALUE \<and> s_duration vs > 0
                   then let ts = wrap64 (s_duration vs - 1);
                            r = av_seek_frame L t2 ts
                        in (r \<ge> 0, t2 @ [EvSeekFrame ts r])
                   else (False, t2))
            in if hit3 then (0, t3)
               else
                 let r4 = av_seek_frame L t3 0; t4 = t3 @ [EvSeekFrame 0 r4]
                 in if r4 \<ge> 0 then (0, t4) else (- 1, t4))"

text \<open>The body of \<^verbatim>\<open>if (windows_sec[w] > 0.0) { ... }\<close>.\<close>

definition step_back :: "avlib \<Rightarrow> container \<Rightarrow> double \<Rightarrow> trace \<Rightarrow> trace" where
  "step_back L c w t =
    (if d_gt0 w
     then
       let vs = vstream_of c; fmt = fmtctx c; tb = time_base vs;
           step = window_step L w tb;
           target = INT64_MAX;
           target = (if f_duration fmt > 0
                     then av_rescale_q L (f_duration fmt) AV_TIME_BASE_Q tb
                     else if s_duration vs \<noteq> AV_NOPTS_VALUE then s_duration vs
                     else target)
       in if target \<noteq> INT64_MAX
          then let back = wrap64 (target - (if step > 0 then step else 1));
                   back = (if back < 0 then 0 else back);
                   r = av_seek_frame L t back
               in t @ [EvSeekFrame back r]
          else t
     else t)"

text \<open>What one packet read by the scan does to \<^verbatim>\<open>last_ts\<close>.\<close>

definition scan_update :: "int \<Rightarrow> AVPacket \<Rightarrow> int \<Rightarrow> int" where
  "scan_update vindex p last_ts =
    (if stream_index p = vindex
     then let ts = (if pts p \<noteq> AV_NOPTS_VALUE then pts p
                    else if dts p \<noteq> AV_NOPTS_VALUE then dts p
                    else AV_NOPTS_VALUE)
          in if ts \<noteq> AV_NOPTS_VALUE then ts else last_ts
     else last_ts)"

text \<open>The loop \<^verbatim>\<open>while (iter++ < 10000)\<close>; \<open>iter\<close> is the counter before the test.\<close>

function scan_packets :: "avlib \<Rightarrow> int \<Rightarrow> int \<Rightarrow> int \<Rightarrow> trace \<Rightarrow> int \<times> trace" where
  "scan_packets L vindex iter last_ts t =
    (if iter < 10000
     then let rp = av_read_frame L t; t1 = t @ [EvRead (fst rp) (snd rp)]
          in if fst rp < 0 then (last_ts, t1)
             else scan_packets L vindex (iter + 1) (scan_update vindex (snd rp) last_ts) t1
     else (last_ts, t))"
  by pat_completeness auto
termination
  by (relation "measure (\<lambda>(L, vindex, iter, last_ts, t). nat (10000 - iter))") auto

definition windows_sec :: "double list" where
  "windows_sec = [Fin 0, Fin 5, Fin 30]"

text \<open>
  One turn of the loop over the windows. The first component says whether the loop
  goes on to the next window (no \<^verbatim>\<open>break\<close>).
\<close>

definition scan_window ::
  "avlib \<Rightarrow> container \<Rightarrow> double \<Rightarrow> int \<Rightarrow> trace \<Rightarrow> bool \<times> int \<times> trace" where
  "scan_window L c w last_ts t =
    (let (rs, t1) = try_seek_to_end L c t in
     if rs < 0 then (False, last_ts, t1)
     else
       let t2 = step_back L c w t1;
           ok = av_packet_alloc L t2;
           t3 = t2 @ [EvPacketAlloc ok]
       in if \<not> ok then (False, last_ts, t3)
          else
            let (last_ts', t4) = scan_packets L (best_stream c) 0 last_ts t3
            in if last_ts' \<noteq> AV_NOPTS_VALUE then (False, last_ts', t4)
               else (True, last_ts', t4))"

fun scan_windows ::
  "avlib \<Rightarrow> container \<Rightarrow> double list \<Rightarrow> int \<Rightarrow> trace \<Rightarrow> int \<times> trace" where
  "scan_windows L c [] last_ts t = (last_ts, t)"
| "scan_windows L c (w # ws) last_ts t =
    (case scan_window L c w last_ts t of
       (go_on, last_ts', t') \<Rightarrow>
         if go_on then scan_windows L c ws last_ts' t' else (last_ts', t'))"

text \<open>The choice of \<^verbatim>\<open>result\<close> after the loop, before the final test.\<close>

definition precise_choice :: "container \<Rightarrow> int \<Rightarrow> double" where
  "precise_choice c last_ts =
    (let vs = vstream_of c; fmt = fmtctx c; tb = time_base vs in
     if last_ts \<noteq> AV_NOPTS_VALUE then d_mul (d_of_int last_ts) (av_q2d tb)
     else if s_duration vs \<noteq> AV_NOPTS_VALUE \<and> s_duration vs > 0
     then d_mul (d_of_int (s_duration vs)) (av_q2d tb)
     else if f_duration fmt > 0
     then d_div (d_of_int (f_duration fmt)) (d_of_int AV_TIME_BASE)
     else NaN)"

definition ff_precise_duration ::
  "world \<Rightarrow> avlib \<Rightarrow> string option \<Rightarrow> double \<times> trace" where
  "ff_precise_duration W L path =
    (if path = None then (NaN, [])
     else
       let c = W path; fmt = fmtctx c in
       if open_input_rc c \<noteq> 0 then (NaN, [])
       else if stream_info_rc c < 0 then (NaN, [])
       else
         let vindex = best_stream c in
         if vindex < 0
         then let result = (if f_duration fmt > 0
                            then d_div (d_of_int (f_duration fmt)) (d_of_int AV_TIME_BASE)
                            else NaN)
              in (if d_gt0 result then result else NaN, [])
         else
           let (last_ts, t) = scan_windows L c windows_sec AV_NOPTS_VALUE [];
               result = precise_choice c last_ts
           in (if d_gt0 result then result else NaN, t))"

section \<open>The decode session\<close>

record AVCodecContext =
  width :: int
  height :: int

text \<open>
  \<^verbatim>\<open>struct FFPlayer\<close>. A pointer field is \<open>None\<close> (or \<open>False\<close>) when null; \<open>fmt\<close> and
  \<open>vdec\<close> carry what the code reads through them.
\<close>

record FFPlayer =
  fmt :: "container option"
  vdec :: "AVCodecContext option"
  vstream :: int
  frame :: bool
  pkt :: bool
  sws :: bool
  out_w :: int
  out_h :: int
  at_eof :: int

definition setup_sws :: "avlib \<Rightarrow> FFPlayer \<Rightarrow> trace \<Rightarrow> int \<times> FFPlayer \<times> trace" where
  "setup_sws L p t =
    (if sws p then (0, p, t)
     else let ok = sws_getContext L t
          in (if ok then 0 else - 1, p\<lparr>sws := ok\<rparr>, t @ [EvSwsGetContext ok]))"

text \<open>
  \<^verbatim>\<open>ff_open\<close> returns the session and writes four out-parameters, or returns null and
  writes nothing. The out-parameters are given as the values written through the
  pointers that are not null. On the failure path the code frees what it had allocated;
  nothing of that is visible to the caller, and the model returns \<open>None\<close>.
\<close>

record open_result =
  session :: FFPlayer
  o_width :: int
  o_height :: int
  o_time_base :: double
  o_duration_s :: double

definition ff_open :: "world \<Rightarrow> string option \<Rightarrow> open_result option" where
  "ff_open W path =
    (let c = W path in
     if \<not> calloc_ok c then None
     else if open_input_rc c < 0 then None
     else if stream_info_rc c < 0 then None
     else if best_stream c < 0 then None
     else
       let vs = vstream_of c in
       if \<not> find_decoder_ok c then None
       else if \<not> alloc_context_ok c then None
       else if parameters_rc c < 0 then None
       else if open2_rc c < 0 then None
       else if \<not> frame_alloc_ok c \<or> \<not> packet_alloc_ok c then None
       else
         let p = \<lparr>fmt = Some c,
                  vdec = Some \<lparr>width = dec_width c, height = dec_height c\<rparr>,
                  vstream = best_stream c, frame = True, pkt = True, sws = False,
                  out_w = dec_width c, out_h = dec_height c, at_eof = 0\<rparr>;
             dur = NaN;
             dur = (if f_duration (fmtctx c) \<noteq> AV_NOPTS_VALUE
                    then d_div (d_of_int (f_duration (fmtctx c))) (d_of_int AV_TIME_BASE)
                    else if s_duration vs \<noteq> AV_NOPTS_VALUE
                    then d_mul (d_of_int (s_duration vs)) (av_q2d (time_base vs))
                    else dur)
         in Some \<lparr>session = p, o_width = out_w p, o_height = out_h p,
                  o_time_base = av_q2d (time_base vs), o_duration_s = dur\<rparr>)"

text \<open>
  Sessions live in allocated memory: the heap maps the address of each live
  \<^verbatim>\<open>FFPlayer\<close> to its contents. \<^verbatim>\<open>free(p)\<close> removes the address; reading through an
  address that is not live is a fault.
\<close>

type_synonym heap = "nat \<rightharpoonup> FFPlayer"

datatype fault = DanglingPointer | NullDeref

definition ff_close :: "heap \<Rightarrow> nat option \<Rightarrow> trace \<Rightarrow> fault + heap \<times> trace" where
  "ff_close h p t =
    (case p of
       None \<Rightarrow> Inr (h, t)
     | Some a \<Rightarrow>
         (case h a of
            None \<Rightarrow> Inl DanglingPointer
          | Some s \<Rightarrow>
              Inr (h(a := None),
                   t @ (if sws s then [EvSwsFree] else [])
                     @ (if frame s then [EvFrameFree] else [])
                     @ (if pkt s then [EvPacketFree] else [])
                     @ (if vdec s \<noteq> None then [EvCodecFree] else [])
                     @ (if fmt s \<noteq> None then [EvCloseInput] else [])
                     @ [EvFree])))"

section \<open>The decode pump\<close>

text \<open>
  What one call of \<^verbatim>\<open>ff_next_frame\<close> leaves behind: the return code, the value of
  \<^verbatim>\<open>*out_ib\<close>, the value written to \<^verbatim>\<open>*out_pts_s\<close> if any, the session and the trace.
\<close>

record pump_result =
  rc :: int
  out_ib :: "nat option"
  out_pts :: "double option"
  player :: FFPlayer
  calls :: trace

text \<open>
  From \<^verbatim>\<open>avcodec_receive_frame\<close> to the end of the loop body. \<open>Inl\<close> is a \<^verbatim>\<open>return\<close>,
  \<open>Inr\<close> is \<^verbatim>\<open>continue\<close>. \<open>want\<close> says that \<^verbatim>\<open>out_pts_s\<close> is not null.
\<close>

definition receive_step ::
  "avlib \<Rightarrow> container \<Rightarrow> FFPlayer \<Rightarrow> bool \<Rightarrow> trace \<Rightarrow> pump_result + FFPlayer \<times> trace" where
  "receive_step L c p want t =
    (let rf = avcodec_receive_frame L t; r = fst rf; t1 = t @ [EvRecv r (snd rf)] in
     if r = AVERROR_EAGAIN then Inr (p, t1)
     else if r = AVERROR_EOF
     then Inl \<lparr>rc = 0, out_ib = None, out_pts = None, player = p, calls = t1\<rparr>
     else if r < 0
     then Inl \<lparr>rc = r, out_ib = None, out_pts = None, player = p, calls = t1\<rparr>
     else
       (case CVPixelBufferCreate L t1 of
          None \<Rightarrow>
            Inl \<lparr>rc = - 3, out_ib = None, out_pts = None, player = p,
                 calls = t1 @ [EvPixelBufferCreate None]\<rparr>
        | Some buf \<Rightarrow>
            let t2 = t1 @ [EvPixelBufferCreate (Some buf), EvSwsScale];
                pts_s = (if snd rf \<noteq> AV_NOPTS_VALUE
                         then d_mul (d_of_int (snd rf)) (av_q2d (time_base (vstream_of c)))
                         else NaN)
            in Inl \<lparr>rc = 1, out_ib = Some buf,
                    out_pts = (if want then Some pts_s else None),
                    player = p, calls = t2\<rparr>))"

text \<open>One turn of \<^verbatim>\<open>for (;;)\<close>.\<close>

definition pump_iter ::
  "avlib \<Rightarrow> container \<Rightarrow> FFPlayer \<Rightarrow> bool \<Rightarrow> trace \<Rightarrow> pump_result + FFPlayer \<times> trace" where
  "pump_iter L c p want t =
    (if at_eof p = 0
     then
       let rp = av_read_frame L t; r = fst rp; t1 = t @ [EvRead r (snd rp)] in
       if r = AVERROR_EOF
       then let p1 = p\<lparr>at_eof := 1\<rparr>;
                rs = avcodec_send_packet L t1 None
            in receive_step L c p1 want (t1 @ [EvSend None rs])
       else if r < 0
       then Inl \<lparr>rc = r, out_ib = None, out_pts = None, player = p, calls = t1\<rparr>
       else if stream_index (snd rp) \<noteq> vstream p then Inr (p, t1)
       else let rs = avcodec_send_packet L t1 (Some (snd rp))
            in receive_step L c p want (t1 @ [EvSend (Some (snd rp)) rs])
     else
       let r = avcodec_send_packet L t None; t1 = t @ [EvSend None r] in
       if r < 0 \<and> r \<noteq> AVERROR_EAGAIN
       then Inl \<lparr>rc = r, out_ib = None, out_pts = None, player = p, calls = t1\<rparr>
       else receive_step L c p want t1)"

text \<open>
  The loop has no bound of its own: it runs for as long as the library sends it back.
  The model counts the turns; \<open>None\<close> means the count was used up before a \<^verbatim>\<open>return\<close>.
\<close>

fun pump_loop ::
  "avlib \<Rightarrow> nat \<Rightarrow> container \<Rightarrow> FFPlayer \<Rightarrow> bool \<Rightarrow> trace \<Rightarrow> pump_result option" where
  "pump_loop L 0 c p want t = None"
| "pump_loop L (Suc n) c p want t =
    (case pump_iter L c p want t of
       Inl res \<Rightarrow> Some res
     | Inr (p', t') \<Rightarrow> pump_loop L n c p' want t')"

text \<open>
  \<^verbatim>\<open>ff_next_frame\<close> reads through \<^verbatim>\<open>p->fmt\<close>, \<^verbatim>\<open>p->vdec\<close>, \<^verbatim>\<open>p->frame\<close> and \<^verbatim>\<open>p->pkt\<close>
  without a test; a session from \<^verbatim>\<open>ff_open\<close> has them all.
\<close>

definition ff_next_frame ::
  "avlib \<Rightarrow> nat \<Rightarrow> FFPlayer \<Rightarrow> bool \<Rightarrow> trace \<Rightarrow> (fault + pump_result) option" where
  "ff_next_frame L n p want t =
    (case (fmt p, vdec p) of
       (Some c, Some d) \<Rightarrow>
         if \<not> frame p \<or> \<not> pkt p then Some (Inl NullDeref)
         else
           let (rs, p1, t1) = (if \<not> sws p then setup_sws L p t else (0, p, t)) in
           if \<not> sws p \<and> rs < 0
           then Some (Inr \<lparr>rc = - 2, out_ib = None, out_pts = None, player = p1, calls = t1\<rparr>)
           else map_option Inr (pump_loop L n c p1 want t1)
     | _ \<Rightarrow> Some (Inl NullDeref))"

text \<open>
  The loop state after \<open>k\<close> turns that all ended in \<^verbatim>\<open>continue\<close>
  (\<open>None\<close> if one of them returned).
\<close>

fun pump_steps ::
  "avlib \<Rightarrow> container \<Rightarrow> bool \<Rightarrow> nat \<Rightarrow> FFPlayer \<times> trace \<Rightarrow> (FFPlayer \<times> trace) option" where
  "pump_steps L c want 0 s = Some s"
| "pump_steps L c want (Suc k) s =
    (case pump_iter L c (fst s) want (snd s) of
       Inl res \<Rightarrow> None
     | Inr s' \<Rightarrow> pump_steps L c want k s')"

section \<open>The specification's wording\<close>

text \<open>
  The fast probe as the specification describes it: the first applicable tier, in order.
  A frame rate is nonzero when neither its numerator nor its denominator is zero; the
  file size is obtainable when the container has an I/O context.
\<close>

definition rate_nonzero :: "AVRational \<Rightarrow> bool" where
  "rate_nonzero q = (num q \<noteq> 0 \<and> den q \<noteq> 0)"

definition spec_frame_rate :: "AVStream \<Rightarrow> AVRational" where
  "spec_frame_rate s =
    (if rate_nonzero (avg_frame_rate s) then avg_frame_rate s else r_frame_rate s)"

definition opened :: "container \<Rightarrow> bool" where
  "opened c = (open_input_rc c = 0 \<and> \<not> stream_info_rc c < 0)"

definition fast_probe_spec :: "container \<Rightarrow> double" where
  "fast_probe_spec c =
    (let s = vstream_of c;
         tier_a = d_div (d_of_int (f_duration (fmtctx c))) (d_of_int AV_TIME_BASE);
         tier_b = d_mul (d_of_int (s_duration s)) (av_q2d (time_base s));
         tier_c = d_div (d_of_int (nb_frames s)) (av_q2d (spec_frame_rate s));
         tier_d = d_div (d_of_int (avio_size_rc c * 8)) (d_of_int (bit_rate (fmtctx c)))
     in if \<not> opened c then NaN
        else if d_gt0 tier_a then tier_a
        else if best_stream c \<ge> 0 \<and> d_gt0 tier_b then tier_b
        else if best_stream c \<ge> 0 \<and> nb_frames s > 0 \<and> rate_nonzero (spec_frame_rate s)
        then tier_c
        else if pb (fmtctx c) \<and> avio_size_rc c > 0 \<and> bit_rate (fmtctx c) > 0 then tier_d
        else NaN)"

text \<open>
  Well-formed numbers from the demuxer: a stream's time base is a positive fraction, a
  frame rate is either unknown (numerator 0) or a positive fraction, and eight times the
  file size fits 64 bits (beyond that \<^verbatim>\<open>size * 8\<close> overflows in C).
\<close>

definition time_base_ok :: "AVRational \<Rightarrow> bool" where
  "time_base_ok q = (num q > 0 \<and> den q > 0)"

definition frame_rate_ok :: "AVRational \<Rightarrow> bool" where
  "frame_rate_ok q = ((num q = 0 \<and> den q \<ge> 0) \<or> (num q > 0 \<and> den q > 0))"

definition metadata_ok :: "container \<Rightarrow> bool" where
  "metadata_ok c =
    (time_base_ok (time_base (vstream_of c)) \<and>
     frame_rate_ok (avg_frame_rate (vstream_of c)) \<and>
     frame_rate_ok (r_frame_rate (vstream_of c)) \<and>
     avio_size_rc c * 8 \<le> INT64_MAX)"

text \<open>
  The codec identifier as the specification describes it: the four bytes of the codec
  tag, lowest first, read as ASCII characters.
\<close>

definition fourcc :: "32 word \<Rightarrow> string" where
  "fourcc tag = map (\<lambda>i. char_of (unat (drop_bit (8 * i) tag))) [0, 1, 2, 3]"

definition codec_identifier_spec :: "container \<Rightarrow> int" where
  "codec_identifier_spec c =
    (if \<not> opened c \<or> best_stream c < 0 then - 1
     else if codec_name (vstream_of c) = Some ''notchlc''
             \<or> fourcc (codec_tag (vstream_of c)) = ''nclc''
     then 1 else 0)"

section \<open>Reading the trace\<close>

text \<open>
  The timestamps the scan captures, read off the trace: those of the packets of stream
  \<open>v\<close> that were read without error and carry a presentation or decode timestamp.
\<close>

definition packet_ts :: "AVPacket \<Rightarrow> int option" where
  "packet_ts p =
    (if pts p \<noteq> AV_NOPTS_VALUE then Some (pts p)
     else if dts p \<noteq> AV_NOPTS_VALUE then Some (dts p) else None)"

fun capture :: "int \<Rightarrow> event \<Rightarrow> int option" where
  "capture v (EvRead r p) = (if r \<ge> 0 \<and> stream_index p = v then packet_ts p else None)"
| "capture v e = None"

definition captured :: "int \<Rightarrow> trace \<Rightarrow> int list" where
  "captured v t = List.map_filter (capture v) t"

fun is_read :: "event \<Rightarrow> bool" where
  "is_read (EvRead r p) = True"
| "is_read e = False"

fun is_seek_file :: "event \<Rightarrow> bool" where
  "is_seek_file (EvSeekFile r) = True"
| "is_seek_file e = False"

fun is_send :: "event \<Rightarrow> bool" where
  "is_send (EvSend p r) = True"
| "is_send e = False"

text \<open>
  The value of \<^verbatim>\<open>last_ts\<close> after the reads in \<open>es\<close>, starting from \<open>l\<close>: the last
  captured timestamp, or \<open>l\<close> when none was captured.
\<close>

definition latest :: "int \<Rightarrow> int \<Rightarrow> trace \<Rightarrow> int" where
  "latest v l es = (if captured v es = [] then l else last (captured v es))"

text \<open>
  No window is started once a timestamp has been captured: every call of
  \<^verbatim>\<open>avformat_seek_file\<close>, the first call of each window, comes before any capture.
\<close>

definition stops_after_capture :: "int \<Rightarrow> trace \<Rightarrow> bool" where
  "stops_after_capture v es =
    (\<forall>es1 e es2. es = es1 @ e # es2 \<longrightarrow> is_seek_file e \<longrightarrow> captured v es1 = [])"

text \<open>
  What every return of \<^verbatim>\<open>ff_next_frame\<close> satisfies: the code is 1, 0 or negative; the
  out buffer is set exactly when the code is 1; and the code is 0 exactly when the last
  library call was an \<^verbatim>\<open>avcodec_receive_frame\<close> that answered \<^verbatim>\<open>AVERROR_EOF\<close>.
\<close>

definition returns_well :: "pump_result \<Rightarrow> bool" where
  "returns_well res =
    ((rc res = 1 \<or> rc res = 0 \<or> rc res < 0) \<and>
     (rc res = 1 \<longleftrightarrow> out_ib res \<noteq> None) \<and>
     calls res \<noteq> [] \<and>
     (rc res = 0 \<longleftrightarrow> (\<exists>x. last (calls res) = EvRecv AVERROR_EOF x)))"

text \<open>
  The fast probe as the code orders it, tier by tier, for every container: the frame
  rate is the average rate when its numerator is positive and the real rate otherwise,
  whatever the average rate's denominator; a tier whose value is not greater than zero
  is passed over; \<^verbatim>\<open>size * 8\<close> is taken in 64 bits.
\<close>

definition code_frame_rate :: "AVStream \<Rightarrow> AVRational" where
  "code_frame_rate s =
    (if num (avg_frame_rate s) > 0 then avg_frame_rate s else r_frame_rate s)"

definition probe_cascade :: "container \<Rightarrow> double" where
  "probe_cascade c =
    (let s = vstream_of c;
         rate = code_frame_rate s;
         tier_a = d_div (d_of_int (f_duration (fmtctx c))) (d_of_int AV_TIME_BASE);
         tier_b = d_mul (d_of_int (s_duration s)) (av_q2d (time_base s));
         tier_c = d_div (d_of_int (nb_frames s)) (av_q2d rate);
         tier_d = d_div (d_of_int (wrap64 (avio_size_rc c * 8))) (d_of_int (bit_rate (fmtctx c)))
     in if \<not> opened c then NaN
        else if f_duration (fmtctx c) > 0 then tier_a
        else if best_stream c \<ge> 0 \<and> s_duration s > 0 \<and> d_gt0 tier_b then tier_b
        else if best_stream c \<ge> 0 \<and> nb_frames s > 0 \<and> num rate > 0 \<and> den rate > 0
        then tier_c
        else if pb (fmtctx c) \<and> avio_size_rc c > 0 \<and> bit_rate (fmtctx c) > 0 \<and> d_gt0 tier_d
        then tier_d
        else NaN)"

text \<open>
  The library calls a run of events is faithful to: every recorded
  \<^verbatim>\<open>avcodec_receive_frame\<close> carries the answer the library gives at that point of the
  trace, and one that answered \<^verbatim>\<open>AVERROR_EOF\<close> is the last event.
\<close>

fun recv_faithful :: "avlib \<Rightarrow> trace \<Rightarrow> trace \<Rightarrow> bool" where
  "recv_faithful L t [] = True"
| "recv_faithful L t (EvRecv r y # es) =
    (avcodec_receive_frame L t = (r, y) \<and> (r = AVERROR_EOF \<longrightarrow> es = []) \<and>
     recv_faithful L (t @ [EvRecv r y]) es)"
| "recv_faithful L t (e # es) = recv_faithful L (t @ [e]) es"

section \<open>Sample inputs\<close>

text \<open>A ten-second clip at 30 frames per second with accurate metadata.\<close>

definition clip_stream :: AVStream where
  "clip_stream =
    \<lparr>time_base = \<lparr>num = 1, den = 30\<rparr>, s_duration = 300, nb_frames = 300,
     avg_frame_rate = \<lparr>num = 30, den = 1\<rparr>, r_frame_rate = \<lparr>num = 30, den = 1\<rparr>,
     codec_name = Some ''notchlc'', codec_tag = 0x636C636E\<rparr>"

definition clip :: container where
  "clip =
    \<lparr>open_input_rc = 0, stream_info_rc = 0,
     fmtctx = \<lparr>f_duration = 10000000, bit_rate = 8000000, pb = True\<rparr>,
     best_stream = 0, vstream_of = clip_stream, avio_size_rc = 10000000,
     calloc_ok = True, find_decoder_ok = True, alloc_context_ok = True,
     parameters_rc = 0, open2_rc = 0, frame_alloc_ok = True, packet_alloc_ok = True,
     dec_width = 1920, dec_height = 1080\<rparr>"

text \<open>The same clip when the container reports a duration of zero.\<close>

definition clip_zero_duration :: container where
  "clip_zero_duration = clip\<lparr>fmtctx := \<lparr>f_duration = 0, bit_rate = 8000000, pb = True\<rparr>\<rparr>"

text \<open>
  A stream with no frame count and a stream duration of zero ticks, in a container
  that reports no duration.
\<close>

definition clip_no_frames :: container where
  "clip_no_frames =
    clip\<lparr>fmtctx := \<lparr>f_duration = AV_NOPTS_VALUE, bit_rate = 0, pb = True\<rparr>,
         vstream_of := clip_stream\<lparr>nb_frames := 0, s_duration := 0\<rparr>\<rparr>"

text \<open>
  A library whose source holds one video packet, stamped \<open>ts\<close>, and then ends; every seek
  succeeds. The decoder takes the packet, gives one frame for it and is drained after.
\<close>

definition one_packet :: "int \<Rightarrow> AVPacket" where
  "one_packet ts = \<lparr>stream_index = 0, pts = ts, dts = ts\<rparr>"

definition blank_packet :: AVPacket where
  "blank_packet = \<lparr>stream_index = 0, pts = AV_NOPTS_VALUE, dts = AV_NOPTS_VALUE\<rparr>"

definition single_packet_lib :: "int \<Rightarrow> avlib" where
  "single_packet_lib ts =
    \<lparr>av_rescale_q = (\<lambda>a bq cq. a),
     window_step = (\<lambda>w tb. 150),
     avformat_seek_file = (\<lambda>t. 0),
     av_seek_frame = (\<lambda>t ts. 0),
     av_packet_alloc = (\<lambda>t. True),
     av_read_frame =
       (\<lambda>t. if filter is_read t = [] then (0, one_packet ts) else (AVERROR_EOF, blank_packet)),
     avcodec_send_packet = (\<lambda>t p. 0),
     avcodec_receive_frame =
       (\<lambda>t. if filter is_send t = [] then (AVERROR_EAGAIN, AV_NOPTS_VALUE)
            else if length (filter is_send t) = 1 then (0, ts)
            else (AVERROR_EOF, AV_NOPTS_VALUE)),
     sws_getContext = (\<lambda>t. True),
     CVPixelBufferCreate = (\<lambda>t. Some (length t))\<rparr>"

text \<open>A library whose source fails with an I/O error (\<^verbatim>\<open>AVERROR(EIO)\<close>) on every read.\<close>

definition failing_lib :: avlib where
  "failing_lib = (single_packet_lib 0)\<lparr>av_read_frame := (\<lambda>t. (- 5, blank_packet))\<rparr>"

text \<open>
  The session \<^verbatim>\<open>ff_open\<close> gives for the clip, and the traces of the first and the second
  call of \<^verbatim>\<open>ff_next_frame\<close> on it with the one-packet library stamped 7.
\<close>

definition clip_session :: FFPlayer where
  "clip_session =
    \<lparr>fmt = Some clip, vdec = Some \<lparr>width = 1920, height = 1080\<rparr>, vstream = 0,
     frame = True, pkt = True, sws = False, out_w = 1920, out_h = 1080, at_eof = 0\<rparr>"

definition clip_trace_1 :: trace where
  "clip_trace_1 =
    [EvSwsGetContext True, EvRead 0 (one_packet 7), EvSend (Some (one_packet 7)) 0,
     EvRecv 0 7, EvPixelBufferCreate (Some 4), EvSwsScale]"

definition clip_trace_2 :: trace where
  "clip_trace_2 =
    clip_trace_1 @ [EvRead AVERROR_EOF blank_packet, EvSend None 0,
                    EvRecv AVERROR_EOF AV_NOPTS_VALUE]"

text \<open>
  A container with no durations and no bit rate, 50 frames, an average frame rate of
  30/0 and a real frame rate of 25/1.
\<close>

definition clip_bad_avg_rate :: container where
  "clip_bad_avg_rate =
    clip\<lparr>fmtctx := \<lparr>f_duration = AV_NOPTS_VALUE, bit_rate = 0, pb = True\<rparr>,
         vstream_of := clip_stream\<lparr>s_duration := AV_NOPTS_VALUE, nb_frames := 50,
                                    avg_frame_rate := \<lparr>num = 30, den = 0\<rparr>,
                                    r_frame_rate := \<lparr>num = 25, den = 1\<rparr>\<rparr>\<rparr>"

text \<open>A library whose source never ends and never holds a video packet.\<close>

definition audio_packet :: AVPacket where
  "audio_packet = \<lparr>stream_index = 1, pts = 0, dts = 0\<rparr>"

definition endless_lib :: avlib where
  "endless_lib = (single_packet_lib 0)\<lparr>av_read_frame := (\<lambda>t. (0, audio_packet))\<rparr>"

section \<open>Codec identifier: the tag bytes as characters\<close>

lemma mask_255: "(255 :: 32 word) = mask 8"
  by (simp add: mask_eq_exp_minus_1)

lemma low_byte: "(ucast ((w :: 32 word) AND 0xFF) :: 8 word) = ucast w"
  unfolding mask_255 by (rule bit_word_eqI) (auto simp add: bit_simps)

lemma unat_low_byte: "unat (ucast (w :: 32 word) :: 8 word) = unat w mod 256"
  by (simp add: unsigned_ucast_eq take_bit_eq_mod)

lemma unat_of_char: "unat (of_char ch :: 8 word) = of_char ch"
proof -
  have "(of_char ch :: 8 word) = of_nat (of_char ch)"
    by (simp only: of_nat_of_char)
  then have "unat (of_char ch :: 8 word) = (of_char ch :: nat) mod 2 ^ 8"
    by (simp add: unat_of_nat)
  then show ?thesis
    by simp
qed

lemma char_of_eq_iff: "(char_of (n :: nat) = ch) = (n mod 256 = of_char ch)"
  by (metis of_char_of char_of_char)

lemma byte_eq_char:
  "((ucast (w :: 32 word) :: 8 word) = of_char ch) = (char_of (unat w) = ch)"
proof -
  have "((ucast w :: 8 word) = of_char ch)
        = (unat (ucast w :: 8 word) = unat (of_char ch :: 8 word))"
    by (simp only: word_unat_eq_iff)
  then show ?thesis
    by (simp only: unat_low_byte unat_of_char char_of_eq_iff)
qed

lemma c_str_four:
  "b0 \<noteq> 0 \<Longrightarrow> b1 \<noteq> 0 \<Longrightarrow> b2 \<noteq> 0 \<Longrightarrow> b3 \<noteq> 0 \<Longrightarrow>
   (c_str [x0, x1, x2, x3, 0] = [b0, b1, b2, b3])
   = (x0 = b0 \<and> x1 = b1 \<and> x2 = b2 \<and> x3 = b3)"
  by (auto simp: c_str_def)

lemma tag_match: "(c_str (tagstr tag) = c_lit ''nclc'') = (fourcc tag = ''nclc'')"
proof -
  have "(c_str (tagstr tag) = c_lit ''nclc'') =
     ((ucast tag :: 8 word) = of_char CHR ''n''
      \<and> (ucast (drop_bit 8 tag) :: 8 word) = of_char CHR ''c''
      \<and> (ucast (drop_bit 16 tag) :: 8 word) = of_char CHR ''l''
      \<and> (ucast (drop_bit 24 tag) :: 8 word) = of_char CHR ''c'')"
    unfolding tagstr_def c_lit_def low_byte list.map
    by (subst c_str_four) simp_all
  also have "\<dots> = (fourcc tag = ''nclc'')"
    unfolding byte_eq_char by (simp add: fourcc_def)
  finally show ?thesis .
qed

lemma fourcc_zero: "fourcc 0 \<noteq> ''nclc''"
  by (simp add: fourcc_def)

text \<open>
  C6. \<^verbatim>\<open>ff_is_notchlc\<close> answers -1 for a null path, a container that does not open, stream
  info that does not resolve, or no video stream; otherwise 1 exactly when the decoder
  name of the selected video stream is "notchlc" or the four bytes of its codec tag read
  as ASCII are "nclc", and 0 for every other codec.
\<close>

theorem codec_identifier_tristate:
  "ff_is_notchlc W None = - 1 \<and>
   ff_is_notchlc W (Some path) = codec_identifier_spec (W (Some path))"
  by (auto simp add: ff_is_notchlc_def codec_identifier_spec_def opened_def Let_def
        tag_match fourcc_zero)

theorem codec_identifier_tristate_witness:
  "ff_is_notchlc (\<lambda>p. clip) (Some ''clip.mov'') = 1 \<and>
   ff_is_notchlc
     (\<lambda>p. clip\<lparr>vstream_of := clip_stream\<lparr>codec_name := Some ''h264'', codec_tag := 0x31637661\<rparr>\<rparr>)
     (Some ''clip.mov'') = 0 \<and>
   ff_is_notchlc (\<lambda>p. clip\<lparr>best_stream := - 1\<rparr>) (Some ''clip.mov'') = - 1"
  using codec_identifier_tristate [of "\<lambda>p. clip" "''clip.mov''"]
    codec_identifier_tristate
      [of "\<lambda>p. clip\<lparr>vstream_of := clip_stream\<lparr>codec_name := Some ''h264'', codec_tag := 0x31637661\<rparr>\<rparr>"
          "''clip.mov''"]
    codec_identifier_tristate [of "\<lambda>p. clip\<lparr>best_stream := - 1\<rparr>" "''clip.mov''"]
  by (simp add: codec_identifier_spec_def opened_def clip_def clip_stream_def fourcc_def
        char_of_eq_iff)

section \<open>Sign of the duration estimates\<close>

lemma probe_nan_or_positive:
  "ff_probe_duration W path = NaN \<or> d_gt0 (ff_probe_duration W path)"
  unfolding ff_probe_duration_def Let_def by auto

lemma frame_accurate_nan_or_positive:
  "ff_frame_accurate_duration W path = NaN \<or> d_gt0 (ff_frame_accurate_duration W path)"
  unfolding ff_frame_accurate_duration_def Let_def by auto

lemma format_nan_or_positive:
  "ff_format_duration W path = NaN \<or> d_gt0 (ff_format_duration W path)"
  unfolding ff_format_duration_def Let_def by auto

lemma precise_nan_or_positive:
  "fst (ff_precise_duration W L path) = NaN \<or> d_gt0 (fst (ff_precise_duration W L path))"
  unfolding ff_precise_duration_def Let_def by (auto split: prod.splits)

lemma open_duration:
  "ff_open W path = Some res \<Longrightarrow>
   o_duration_s res =
     (if f_duration (fmtctx (W path)) \<noteq> AV_NOPTS_VALUE
      then Fin (real_of_int (f_duration (fmtctx (W path))) / 1000000)
      else if s_duration (vstream_of (W path)) \<noteq> AV_NOPTS_VALUE
      then d_mul (d_of_int (s_duration (vstream_of (W path))))
             (av_q2d (time_base (vstream_of (W path))))
      else NaN)"
  by (auto simp add: ff_open_def Let_def d_of_int_def AV_TIME_BASE_def split: if_splits)

text \<open>
  C1, as the code has it. The fast probe, the frame-accurate, the format-only and the
  precise duration each return NaN or a value greater than zero. The duration that
  \<^verbatim>\<open>ff_open\<close> writes is not tested for its sign: it is the container duration divided by
  the global time unit whenever that duration is not \<^verbatim>\<open>AV_NOPTS_VALUE\<close>, else the stream
  duration times the time base when that is not \<^verbatim>\<open>AV_NOPTS_VALUE\<close>, else NaN; so it is
  greater than zero only when the reported duration is.
\<close>

theorem duration_estimates_sign:
  "(ff_probe_duration W path = NaN \<or> d_gt0 (ff_probe_duration W path)) \<and>
   (ff_frame_accurate_duration W path = NaN \<or> d_gt0 (ff_frame_accurate_duration W path)) \<and>
   (ff_format_duration W path = NaN \<or> d_gt0 (ff_format_duration W path)) \<and>
   (fst (ff_precise_duration W L path) = NaN \<or> d_gt0 (fst (ff_precise_duration W L path))) \<and>
   (\<forall>res. ff_open W path = Some res \<longrightarrow>
      o_duration_s res =
        (if f_duration (fmtctx (W path)) \<noteq> AV_NOPTS_VALUE
         then Fin (real_of_int (f_duration (fmtctx (W path))) / 1000000)
         else if s_duration (vstream_of (W path)) \<noteq> AV_NOPTS_VALUE
         then d_mul (d_of_int (s_duration (vstream_of (W path))))
                (av_q2d (time_base (vstream_of (W path))))
         else NaN))"
  using probe_nan_or_positive frame_accurate_nan_or_positive format_nan_or_positive
    precise_nan_or_positive open_duration
  by blast

theorem duration_estimates_sign_witness:
  "ff_open (\<lambda>p. clip) (Some ''clip.mov'') \<noteq> None \<and>
   o_duration_s (the (ff_open (\<lambda>p. clip) (Some ''clip.mov''))) = Fin 10 \<and>
   d_gt0 (ff_format_duration (\<lambda>p. clip) (Some ''clip.mov''))"
proof -
  have op: "ff_open (\<lambda>p. clip) (Some ''clip.mov'') \<noteq> None"
    by (simp add: ff_open_def clip_def Let_def)
  have nn: "ff_format_duration (\<lambda>p. clip) (Some ''clip.mov'') \<noteq> NaN"
    by (simp add: ff_format_duration_def clip_def Let_def d_of_int_def AV_TIME_BASE_def)
  from op nn
    duration_estimates_sign [of "\<lambda>p. clip" "Some ''clip.mov''" "single_packet_lib 299"]
  show ?thesis
    by (auto simp add: clip_def AV_NOPTS_VALUE_def)
qed

text \<open>
  C1 as stated fails for \<^verbatim>\<open>ff_open\<close>: for a container that reports a duration of zero,
  the duration written is 0.0, which is neither NaN nor greater than zero.
\<close>

theorem open_duration_zero_counterexample:
  "map_option o_duration_s (ff_open (\<lambda>p. clip_zero_duration) (Some ''clip.mov''))
     = Some (Fin 0) \<and>
   \<not> (Fin 0 = NaN \<or> d_gt0 (Fin 0))"
  by (simp add: ff_open_def clip_zero_duration_def clip_def Let_def d_of_int_def
        AV_TIME_BASE_def AV_NOPTS_VALUE_def)

section \<open>Fast probe: the tiers\<close>

lemma wrap64_id: "- (2 ^ 63) \<le> x \<Longrightarrow> x < 2 ^ 63 \<Longrightarrow> wrap64 x = x"
  by (simp add: wrap64_def)

lemma tier_a_pos: "d_gt0 (d_div (d_of_int x) (d_of_int AV_TIME_BASE)) = (x > 0)"
  by (simp add: d_of_int_def AV_TIME_BASE_def)

lemma q2d_fin: "den q \<noteq> 0 \<Longrightarrow> av_q2d q = Fin (real_of_int (num q) / real_of_int (den q))"
  by (simp add: av_q2d_def d_of_int_def)

lemma tier_b_pos:
  "time_base_ok tb \<Longrightarrow> d_gt0 (d_mul (d_of_int x) (av_q2d tb)) = (x > 0)"
  by (simp add: time_base_ok_def q2d_fin d_of_int_def zero_less_mult_iff zero_less_divide_iff)

lemma spec_rate_eq:
  "frame_rate_ok (avg_frame_rate s) \<Longrightarrow>
   spec_frame_rate s = (if num (avg_frame_rate s) > 0 then avg_frame_rate s else r_frame_rate s)"
  by (auto simp add: spec_frame_rate_def rate_nonzero_def frame_rate_ok_def)

lemma block_keep:
  "d_gt0 dur \<Longrightarrow> probe_stream_duration vs dur = dur"
  "d_gt0 dur \<Longrightarrow> probe_frame_count vs dur = dur"
  "d_gt0 dur \<Longrightarrow> probe_bit_rate c dur = dur"
  by (simp_all add: probe_stream_duration_def probe_frame_count_def probe_bit_rate_def
        split: option.split)

lemma block_none:
  "probe_stream_duration None dur = dur"
  "probe_frame_count None dur = dur"
  by (simp_all add: probe_stream_duration_def probe_frame_count_def)

lemma stream_duration_block:
  "\<not> d_gt0 dur \<Longrightarrow> time_base_ok (time_base s) \<Longrightarrow>
   probe_stream_duration (Some s) dur =
     (if d_gt0 (d_mul (d_of_int (s_duration s)) (av_q2d (time_base s)))
      then d_mul (d_of_int (s_duration s)) (av_q2d (time_base s)) else dur)"
  by (simp add: probe_stream_duration_def tier_b_pos)

lemma frame_count_block:
  assumes "\<not> d_gt0 dur" "frame_rate_ok (avg_frame_rate s)" "frame_rate_ok (r_frame_rate s)"
  shows "probe_frame_count (Some s) dur =
     (if nb_frames s > 0 \<and> rate_nonzero (spec_frame_rate s)
      then d_div (d_of_int (nb_frames s)) (av_q2d (spec_frame_rate s)) else dur)"
proof -
  define afr where "afr = (if num (avg_frame_rate s) > 0 then avg_frame_rate s else r_frame_rate s)"
  have ok: "frame_rate_ok afr" using assms by (simp add: afr_def)
  have sp: "spec_frame_rate s = afr" using assms(2) by (simp add: spec_rate_eq afr_def)
  have "probe_frame_count (Some s) dur =
     (if nb_frames s > 0
      then let fps = (if den afr > 0 then d_div (d_of_int (num afr)) (d_of_int (den afr)) else Fin 0)
           in if d_gt0 fps then d_div (d_of_int (nb_frames s)) fps else dur
      else dur)"
    using assms(1) by (simp add: probe_frame_count_def afr_def Let_def)
  also have "\<dots> = (if nb_frames s > 0 \<and> rate_nonzero afr
      then d_div (d_of_int (nb_frames s)) (av_q2d afr) else dur)"
    using ok by (auto simp add: Let_def frame_rate_ok_def rate_nonzero_def av_q2d_def d_of_int_def)
  finally show ?thesis by (simp add: sp)
qed

lemma frame_count_positive:
  "frame_rate_ok q \<Longrightarrow> n > 0 \<Longrightarrow> rate_nonzero q \<Longrightarrow> d_gt0 (d_div (d_of_int n) (av_q2d q))"
  by (auto simp add: frame_rate_ok_def rate_nonzero_def av_q2d_def d_of_int_def)

lemma spec_rate_ok:
  "frame_rate_ok (avg_frame_rate s) \<Longrightarrow> frame_rate_ok (r_frame_rate s) \<Longrightarrow>
   frame_rate_ok (spec_frame_rate s)"
  by (simp add: spec_frame_rate_def)

lemma bit_rate_block:
  "\<not> d_gt0 dur \<Longrightarrow> avio_size_rc c * 8 \<le> INT64_MAX \<Longrightarrow>
   probe_bit_rate c dur =
     (if pb (fmtctx c) \<and> avio_size_rc c > 0 \<and> bit_rate (fmtctx c) > 0
      then d_div (d_of_int (avio_size_rc c * 8)) (d_of_int (bit_rate (fmtctx c))) else dur)"
  by (auto simp add: probe_bit_rate_def wrap64_id INT64_MAX_def)

lemma bit_rate_positive:
  "sz > 0 \<Longrightarrow> br > 0 \<Longrightarrow> d_gt0 (d_div (d_of_int (sz * 8)) (d_of_int br))"
  by (simp add: d_of_int_def)

text \<open>On well-formed numbers the probe is the cascade of the specification.\<close>

lemma fast_probe_well_formed:
  assumes "metadata_ok (W path)"
  shows "ff_probe_duration W path = fast_probe_spec (W path)"
proof -
  define c where "c = W path"
  define s where "s = vstream_of c"
  define a where "a = d_div (d_of_int (f_duration (fmtctx c))) (d_of_int AV_TIME_BASE)"
  define b where "b = d_mul (d_of_int (s_duration s)) (av_q2d (time_base s))"
  define cc where "cc = d_div (d_of_int (nb_frames s)) (av_q2d (spec_frame_rate s))"
  define d where "d = d_div (d_of_int (avio_size_rc c * 8)) (d_of_int (bit_rate (fmtctx c)))"
  define Cc where "Cc = (nb_frames s > 0 \<and> rate_nonzero (spec_frame_rate s))"
  define Dd where "Dd = (pb (fmtctx c) \<and> avio_size_rc c > 0 \<and> bit_rate (fmtctx c) > 0)"
  from assms have tb: "time_base_ok (time_base s)" 
    and fa: "frame_rate_ok (avg_frame_rate s)" and fr: "frame_rate_ok (r_frame_rate s)"
    and sz: "avio_size_rc c * 8 \<le> INT64_MAX"
    by (simp_all add: metadata_ok_def c_def s_def)
  have apos: "d_gt0 a = (0 < f_duration (fmtctx c))"
    by (simp add: a_def tier_a_pos)
  have B: "\<And>dur. \<not> d_gt0 dur \<Longrightarrow> probe_stream_duration (Some s) dur = (if d_gt0 b then b else dur)"
    using tb by (simp add: stream_duration_block b_def)
  have C: "\<And>dur. \<not> d_gt0 dur \<Longrightarrow> probe_frame_count (Some s) dur =
      (if Cc then cc else dur)"
    using fa fr by (simp add: frame_count_block cc_def Cc_def)
  have cpos: "Cc \<Longrightarrow> d_gt0 cc"
    unfolding cc_def Cc_def using spec_rate_ok [OF fa fr] by (simp add: frame_count_positive)
  have D: "\<And>dur. \<not> d_gt0 dur \<Longrightarrow> probe_bit_rate c dur =
     (if Dd then d else dur)"
    using sz by (simp add: bit_rate_block d_def Dd_def)
  have dpos: "Dd \<Longrightarrow> d_gt0 d"
    unfolding d_def Dd_def by (simp add: bit_rate_positive)
  have spec: "fast_probe_spec c =
      (if \<not> opened c then NaN
       else if d_gt0 a then a
       else if best_stream c \<ge> 0 \<and> d_gt0 b then b
       else if best_stream c \<ge> 0 \<and> Cc then cc
       else if Dd then d
       else NaN)"
    by (simp add: fast_probe_spec_def Let_def a_def b_def cc_def d_def s_def Cc_def Dd_def)
  have code: "ff_probe_duration W path =
      (if \<not> opened c then NaN
       else let dur = (if 0 < f_duration (fmtctx c) then a else NaN);
                vs = (if best_stream c \<ge> 0 then Some s else None);
                dur = probe_stream_duration vs dur;
                dur = probe_frame_count vs dur;
                dur = probe_bit_rate c dur
            in if d_gt0 dur then dur else NaN)"
    by (cases "open_input_rc (W path) = 0"; cases "stream_info_rc (W path) < 0")
      (simp_all add: ff_probe_duration_def opened_def c_def s_def a_def Let_def)
  show ?thesis
  proof (cases "d_gt0 a")
    case True
    then show ?thesis
      unfolding c_def [symmetric] spec code using apos by (simp add: block_keep Let_def)
  next
    case nA: False
    show ?thesis
    proof (cases "best_stream c \<ge> 0")
      case False
      with nA show ?thesis
        unfolding c_def [symmetric] spec code using apos dpos
        by (cases Dd) (simp_all add: block_none D Let_def)
    next
      case vs: True
      show ?thesis
      proof (cases "d_gt0 b")
        case True
        with nA vs show ?thesis
          unfolding c_def [symmetric] spec code using apos
          by (simp add: B block_keep Let_def)
      next
        case nB: False
        show ?thesis
        proof (cases Cc)
          case True
          with nA vs nB cpos show ?thesis
            unfolding c_def [symmetric] spec code using apos
            by (simp add: B C block_keep Let_def)
        next
          case False
          with nA vs nB dpos show ?thesis
            unfolding c_def [symmetric] spec code using apos
            by (cases Dd) (simp_all add: B C D Let_def)
        qed
      qed
    qed
  qed
qed

text \<open>For every container the probe is the cascade in the code's own terms.\<close>

lemma stream_duration_block_any:
  "\<not> d_gt0 dur \<Longrightarrow>
   probe_stream_duration (Some s) dur =
     (if s_duration s > 0 then d_mul (d_of_int (s_duration s)) (av_q2d (time_base s)) else dur)"
  by (simp add: probe_stream_duration_def)

lemma frame_count_block_any:
  assumes "\<not> d_gt0 dur"
  shows "probe_frame_count (Some s) dur =
     (if nb_frames s > 0 \<and> num (code_frame_rate s) > 0 \<and> den (code_frame_rate s) > 0
      then d_div (d_of_int (nb_frames s)) (av_q2d (code_frame_rate s)) else dur)"
proof -
  define afr where "afr = code_frame_rate s"
  have "probe_frame_count (Some s) dur =
     (if nb_frames s > 0
      then let fps = (if den afr > 0 then d_div (d_of_int (num afr)) (d_of_int (den afr)) else Fin 0)
           in if d_gt0 fps then d_div (d_of_int (nb_frames s)) fps else dur
      else dur)"
    using assms by (simp add: probe_frame_count_def afr_def code_frame_rate_def Let_def)
  also have "\<dots> = (if nb_frames s > 0 \<and> num afr > 0 \<and> den afr > 0
      then d_div (d_of_int (nb_frames s)) (av_q2d afr) else dur)"
    by (auto simp add: Let_def av_q2d_def d_of_int_def zero_less_divide_iff)
  finally show ?thesis by (simp add: afr_def)
qed

lemma frame_count_positive_any:
  "n > 0 \<Longrightarrow> num q > 0 \<Longrightarrow> den q > 0 \<Longrightarrow> d_gt0 (d_div (d_of_int n) (av_q2d q))"
  by (simp add: av_q2d_def d_of_int_def)

lemma bit_rate_block_any:
  "\<not> d_gt0 dur \<Longrightarrow>
   probe_bit_rate c dur =
     (if pb (fmtctx c) \<and> avio_size_rc c > 0 \<and> bit_rate (fmtctx c) > 0
      then d_div (d_of_int (wrap64 (avio_size_rc c * 8))) (d_of_int (bit_rate (fmtctx c)))
      else dur)"
  by (auto simp add: probe_bit_rate_def)

lemma fast_probe_exact: "ff_probe_duration W path = probe_cascade (W path)"
proof -
  define c where "c = W path"
  define s where "s = vstream_of c"
  define a where "a = d_div (d_of_int (f_duration (fmtctx c))) (d_of_int AV_TIME_BASE)"
  define b where "b = d_mul (d_of_int (s_duration s)) (av_q2d (time_base s))"
  define cc where "cc = d_div (d_of_int (nb_frames s)) (av_q2d (code_frame_rate s))"
  define d where
    "d = d_div (d_of_int (wrap64 (avio_size_rc c * 8))) (d_of_int (bit_rate (fmtctx c)))"
  define A where "A = (0 < f_duration (fmtctx c))"
  define V where "V = (best_stream c \<ge> 0)"
  define B where "B = (s_duration s > 0)"
  define Cc where
    "Cc = (nb_frames s > 0 \<and> num (code_frame_rate s) > 0 \<and> den (code_frame_rate s) > 0)"
  define Dd where "Dd = (pb (fmtctx c) \<and> avio_size_rc c > 0 \<and> bit_rate (fmtctx c) > 0)"
  define Dp where
    "Dp = (pb (fmtctx c) \<and> avio_size_rc c > 0 \<and> bit_rate (fmtctx c) > 0 \<and> d_gt0 d)"
  have Dp: "Dp = (Dd \<and> d_gt0 d)" by (auto simp add: Dp_def Dd_def)
  have apos: "A \<Longrightarrow> d_gt0 a"
    by (simp add: a_def A_def tier_a_pos)
  have Bk: "\<And>dur. \<not> d_gt0 dur \<Longrightarrow> probe_stream_duration (Some s) dur = (if B then b else dur)"
    by (simp add: stream_duration_block_any b_def B_def)
  have Ck: "\<And>dur. \<not> d_gt0 dur \<Longrightarrow> probe_frame_count (Some s) dur = (if Cc then cc else dur)"
    by (simp add: frame_count_block_any cc_def Cc_def)
  have cpos: "Cc \<Longrightarrow> d_gt0 cc"
    unfolding cc_def Cc_def by (simp add: frame_count_positive_any)
  have Dk: "\<And>dur. \<not> d_gt0 dur \<Longrightarrow> probe_bit_rate c dur = (if Dd then d else dur)"
    by (simp add: bit_rate_block_any d_def Dd_def)
  have spec: "probe_cascade c =
      (if \<not> opened c then NaN
       else if A then a
       else if V \<and> B \<and> d_gt0 b then b
       else if V \<and> Cc then cc
       else if Dp then d
       else NaN)"
    by (simp only: probe_cascade_def Let_def a_def b_def cc_def d_def s_def A_def V_def B_def
          Cc_def Dp_def)
  have code: "ff_probe_duration W path =
      (if \<not> opened c then NaN
       else let dur = (if A then a else NaN);
                vs = (if V then Some s else None);
                dur = probe_stream_duration vs dur;
                dur = probe_frame_count vs dur;
                dur = probe_bit_rate c dur
            in if d_gt0 dur then dur else NaN)"
    by (cases "open_input_rc (W path) = 0"; cases "stream_info_rc (W path) < 0")
      (simp_all add: ff_probe_duration_def opened_def c_def s_def a_def A_def V_def Let_def)
  have tail: "(if d_gt0 (probe_bit_rate c x) then probe_bit_rate c x else NaN)
      = (if Dp then d else NaN)" if "\<not> d_gt0 x" for x
    using that by (cases Dd; cases "d_gt0 d") (simp_all add: Dk Dp Let_def)
  show ?thesis
  proof (cases A)
    case True
    then show ?thesis
      unfolding c_def [symmetric] spec code using apos by (simp add: block_keep Let_def)
  next
    case nA: False
    show ?thesis
    proof (cases V)
      case False
      with nA show ?thesis
        unfolding c_def [symmetric] spec code
        using tail [of NaN] by (auto simp add: block_none Let_def split: if_splits)
    next
      case vs: True
      show ?thesis
      proof (cases "B \<and> d_gt0 b")
        case True
        with nA vs show ?thesis
          unfolding c_def [symmetric] spec code by (simp add: Bk block_keep Let_def)
      next
        case nB: False
        define d2 where "d2 = (if B then b else NaN)"
        have n2: "\<not> d_gt0 d2" using nB by (auto simp add: d2_def)
        have s2: "probe_stream_duration (Some s) NaN = d2" by (simp add: Bk d2_def)
        show ?thesis
        proof (cases Cc)
          case True
          with nA vs nB cpos n2 show ?thesis
            unfolding c_def [symmetric] spec code by (auto simp add: s2 Ck block_keep Let_def)
        next
          case False
          with nA vs nB n2 show ?thesis
            unfolding c_def [symmetric] spec code
            using tail [OF n2] by (auto simp add: s2 Ck Let_def split: if_splits)
        qed
      qed
    qed
  qed
qed

text \<open>
  C4, as the code has it. For every path the fast probe returns the first applicable
  tier in this order: container duration over the global time unit when the container
  duration is positive; else stream duration times time base when the stream duration
  is positive and the product is greater than zero; else frame count over frame rate
  when the frame count is positive and the rate has positive numerator and
  denominator, the rate being the average frame rate when its numerator is positive
  (whatever its denominator) and the real frame rate otherwise; else file size times 8,
  taken in 64 bits, over the bit rate when the I/O context exists, size and bit rate are
  positive and the quotient is greater than zero; else NaN. When the time base is a
  positive fraction, each frame rate is unknown (numerator 0) or a positive fraction
  and the size times 8 fits 64 bits, this is the cascade of the specification.
\<close>

theorem fast_probe_tiers:
  "ff_probe_duration W path = probe_cascade (W path) \<and>
   (metadata_ok (W path) \<longrightarrow> ff_probe_duration W path = fast_probe_spec (W path))"
  using fast_probe_exact fast_probe_well_formed by blast

text \<open>
  C4 as stated fails when the average frame rate has a positive numerator and a zero
  denominator: the code takes it as the rate, finds it unusable and passes the tier
  over without trying the real frame rate. With 50 frames, an average rate of 30/0 and
  a real rate of 25/1 the probe returns NaN, where the specification's cascade gives
  50 / 25 = 2.
\<close>

theorem bad_avg_rate_counterexample:
  "ff_probe_duration (\<lambda>p. clip_bad_avg_rate) (Some ''clip.mov'') = NaN \<and>
   nb_frames (vstream_of clip_bad_avg_rate) = 50 \<and>
   avg_frame_rate (vstream_of clip_bad_avg_rate) = \<lparr>num = 30, den = 0\<rparr> \<and>
   r_frame_rate (vstream_of clip_bad_avg_rate) = \<lparr>num = 25, den = 1\<rparr> \<and>
   fast_probe_spec clip_bad_avg_rate = Fin 2"
  unfolding fast_probe_exact
  by (simp add: probe_cascade_def fast_probe_spec_def clip_bad_avg_rate_def clip_def
        clip_stream_def opened_def Let_def code_frame_rate_def spec_frame_rate_def
        rate_nonzero_def d_of_int_def av_q2d_def AV_TIME_BASE_def AV_NOPTS_VALUE_def)

theorem fast_probe_tiers_witness:
  "metadata_ok clip \<and>
   ff_probe_duration (\<lambda>p. clip) (Some ''clip.mov'') = Fin 10 \<and>
   ff_probe_duration
     (\<lambda>p. clip\<lparr>fmtctx := \<lparr>f_duration = AV_NOPTS_VALUE, bit_rate = 0, pb = True\<rparr>,
               vstream_of := clip_stream\<lparr>s_duration := AV_NOPTS_VALUE\<rparr>\<rparr>)
     (Some ''clip.mov'') = Fin 10 \<and>
   ff_probe_duration
     (\<lambda>p. clip\<lparr>fmtctx := \<lparr>f_duration = AV_NOPTS_VALUE, bit_rate = 8000000, pb = True\<rparr>,
               best_stream := - 1\<rparr>)
     (Some ''clip.mov'') = Fin 10"
proof -
  let ?c1 = "clip\<lparr>fmtctx := \<lparr>f_duration = AV_NOPTS_VALUE, bit_rate = 0, pb = True\<rparr>,
               vstream_of := clip_stream\<lparr>s_duration := AV_NOPTS_VALUE\<rparr>\<rparr>"
  let ?c2 = "clip\<lparr>fmtctx := \<lparr>f_duration = AV_NOPTS_VALUE, bit_rate = 8000000, pb = True\<rparr>,
               best_stream := - 1\<rparr>"
  have m: "metadata_ok clip" "metadata_ok ?c1" "metadata_ok ?c2"
    by (simp_all add: metadata_ok_def clip_def clip_stream_def time_base_ok_def
          frame_rate_ok_def INT64_MAX_def)
  have v: "fast_probe_spec clip = Fin 10" "fast_probe_spec ?c1 = Fin 10"
      "fast_probe_spec ?c2 = Fin 10"
    by (simp_all add: fast_probe_spec_def clip_def clip_stream_def opened_def Let_def
          d_of_int_def AV_TIME_BASE_def AV_NOPTS_VALUE_def av_q2d_def spec_frame_rate_def
          rate_nonzero_def)
  from m v fast_probe_tiers [of "\<lambda>p. clip" "Some ''clip.mov''", THEN conjunct2]
    fast_probe_tiers [of "\<lambda>p. ?c1" "Some ''clip.mov''", THEN conjunct2]
    fast_probe_tiers [of "\<lambda>p. ?c2" "Some ''clip.mov''", THEN conjunct2]
  show ?thesis by simp
qed

section \<open>Frame-accurate duration\<close>

lemma frame_accurate_video:
  assumes "opened (W (Some path))" "best_stream (W (Some path)) \<ge> 0"
  shows "ff_frame_accurate_duration W (Some path) =
     (let s = vstream_of (W (Some path));
          afr = (if num (avg_frame_rate s) > 0 then avg_frame_rate s else r_frame_rate s);
          by_frames = Fin (real_of_int (nb_frames s) * (real_of_int (den afr) / real_of_int (num afr)));
          by_ticks = d_mul (d_of_int (s_duration s)) (av_q2d (time_base s))
      in if num afr > 0 \<and> den afr > 0 \<and> nb_frames s > 0 then by_frames
         else if s_duration s \<noteq> AV_NOPTS_VALUE \<and> d_gt0 by_ticks then by_ticks
         else NaN)"
proof -
  define s where "s = vstream_of (W (Some path))"
  define afr where "afr = (if num (avg_frame_rate s) > 0 then avg_frame_rate s else r_frame_rate s)"
  have pos: "num afr > 0 \<Longrightarrow> den afr > 0 \<Longrightarrow> nb_frames s > 0 \<Longrightarrow> 
    d_mul (d_of_int (nb_frames s)) (d_div (d_of_int (den afr)) (d_of_int (num afr)))
     = Fin (real_of_int (nb_frames s) * (real_of_int (den afr) / real_of_int (num afr)))
     \<and> 0 < real_of_int (nb_frames s) * (real_of_int (den afr) / real_of_int (num afr))"
    by (simp add: d_of_int_def)
  have "ff_frame_accurate_duration W (Some path) =
     (let out = (if num afr > 0 \<and> den afr > 0 \<and> nb_frames s > 0
                 then d_mul (d_of_int (nb_frames s)) (d_div (d_of_int (den afr)) (d_of_int (num afr)))
                 else if s_duration s \<noteq> AV_NOPTS_VALUE
                 then d_mul (d_of_int (s_duration s)) (av_q2d (time_base s))
                 else NaN)
      in if d_gt0 out then out else NaN)"
    using assms
    by (simp add: ff_frame_accurate_duration_def opened_def Let_def s_def afr_def)
  also have "\<dots> = (if num afr > 0 \<and> den afr > 0 \<and> nb_frames s > 0 
           then Fin (real_of_int (nb_frames s) * (real_of_int (den afr) / real_of_int (num afr)))
         else if s_duration s \<noteq> AV_NOPTS_VALUE \<and> d_gt0 (d_mul (d_of_int (s_duration s)) (av_q2d (time_base s)))
           then d_mul (d_of_int (s_duration s)) (av_q2d (time_base s))
         else NaN)"
    using pos by (simp add: Let_def)
  finally show ?thesis
    by (simp add: Let_def s_def afr_def)
qed

text \<open>
  C5, as the code has it. For a container that opens and has a video stream, with the
  frame rate taken from the average rate when its numerator is positive and from the
  real rate otherwise: when the rate has positive numerator and denominator and the
  frame count is positive, the result is frame count times (denominator / numerator);
  otherwise it is stream duration times time base when the stream duration is not
  \<^verbatim>\<open>AV_NOPTS_VALUE\<close> and that product is greater than zero, and NaN when it is not. In
  particular a frame count of zero with a positive stream duration and a positive time
  base gives stream duration times time base, not NaN.
\<close>

theorem frame_accurate_tiers:
  assumes "opened (W (Some path))" "best_stream (W (Some path)) \<ge> 0"
    and "s = vstream_of (W (Some path))"
    and "afr = (if num (avg_frame_rate s) > 0 then avg_frame_rate s else r_frame_rate s)"
    and "by_ticks = d_mul (d_of_int (s_duration s)) (av_q2d (time_base s))"
  shows "(num afr > 0 \<and> den afr > 0 \<and> nb_frames s > 0 \<longrightarrow>
            ff_frame_accurate_duration W (Some path) =
              Fin (real_of_int (nb_frames s) * (real_of_int (den afr) / real_of_int (num afr)))) \<and>
         (\<not> (num afr > 0 \<and> den afr > 0 \<and> nb_frames s > 0) \<longrightarrow>
            ff_frame_accurate_duration W (Some path) =
              (if s_duration s \<noteq> AV_NOPTS_VALUE \<and> d_gt0 by_ticks then by_ticks else NaN)) \<and>
         (nb_frames s = 0 \<and> 0 < s_duration s \<and> time_base_ok (time_base s) \<longrightarrow>
            ff_frame_accurate_duration W (Some path) = by_ticks \<and> by_ticks \<noteq> NaN)"
proof -
  have nz: "0 < s_duration s \<Longrightarrow> s_duration s \<noteq> AV_NOPTS_VALUE"
    by (auto simp add: AV_NOPTS_VALUE_def)
  have tp: "0 < s_duration s \<Longrightarrow> time_base_ok (time_base s) \<Longrightarrow> d_gt0 by_ticks"
    by (simp add: assms(5) tier_b_pos)
  have nn: "d_gt0 by_ticks \<Longrightarrow> by_ticks \<noteq> NaN"
    by auto
  show ?thesis
    unfolding frame_accurate_video [of W path, OF assms(1,2)]
    unfolding assms(3)[symmetric] Let_def assms(4)[symmetric] assms(5)[symmetric]
    using nz tp nn by auto
qed

text \<open>
  C5 as stated fails when the stream duration is known but not positive: with a frame
  count of zero, an average rate of 30/1 and a stream duration of zero ticks the result
  is NaN, not the product (which is 0).
\<close>

theorem frame_accurate_zero_duration_counterexample:
  "ff_frame_accurate_duration (\<lambda>p. clip_no_frames) (Some ''clip.mov'') = NaN \<and>
   nb_frames (vstream_of clip_no_frames) = 0 \<and>
   avg_frame_rate (vstream_of clip_no_frames) = \<lparr>num = 30, den = 1\<rparr> \<and>
   s_duration (vstream_of clip_no_frames) \<noteq> AV_NOPTS_VALUE \<and>
   d_mul (d_of_int (s_duration (vstream_of clip_no_frames)))
     (av_q2d (time_base (vstream_of clip_no_frames))) = Fin 0"
  by (simp add: ff_frame_accurate_duration_def clip_no_frames_def clip_def clip_stream_def
      Let_def AV_NOPTS_VALUE_def d_of_int_def av_q2d_def)

theorem frame_accurate_tiers_witness:
  "ff_frame_accurate_duration (\<lambda>p. clip) (Some ''clip.mov'') = Fin 10 \<and>
   ff_frame_accurate_duration
     (\<lambda>p. clip\<lparr>vstream_of := clip_stream\<lparr>nb_frames := 0, s_duration := 150\<rparr>\<rparr>)
     (Some ''clip.mov'') = Fin 5"
proof -
  let ?c = "clip\<lparr>vstream_of := clip_stream\<lparr>nb_frames := 0, s_duration := 150\<rparr>\<rparr>"
  have o: "opened clip" "best_stream clip \<ge> 0" "opened ?c" "best_stream ?c \<ge> 0"
    by (simp_all add: opened_def clip_def)
  from frame_accurate_tiers [of "\<lambda>p. clip" "''clip.mov''", OF o(1,2) refl refl refl]
    frame_accurate_tiers [of "\<lambda>p. ?c" "''clip.mov''", OF o(3,4) refl refl refl]
  show ?thesis
    by (simp add: clip_def clip_stream_def time_base_ok_def d_of_int_def av_q2d_def
          AV_NOPTS_VALUE_def)
qed

section \<open>Precise duration: the scan and its trace\<close>

text \<open>
  The equation of \<open>scan_packets\<close> calls itself on its right-hand side, so it is
  unfolded by hand, one turn at a time.
\<close>

declare scan_packets.simps [simp del]

lemma captured_append: "captured v (xs @ ys) = captured v xs @ captured v ys"
  by (simp add: captured_def map_filter_def)

lemma captured_Nil: "captured v [] = []"
  by (simp add: captured_def map_filter_def)

lemma captured_single:
  "captured v [e] = (case capture v e of None \<Rightarrow> [] | Some ts \<Rightarrow> [ts])"
  by (simp add: captured_def map_filter_def split: option.split)

lemma captured_no_reads: "\<forall>e\<in>set es. \<not> is_read e \<Longrightarrow> captured v es = []"
proof (induction es)
  case Nil
  then show ?case by (simp add: captured_Nil)
next
  case (Cons e es)
  then have "capture v e = None" by (cases e) simp_all
  with Cons show ?case
    using captured_append [of v "[e]" es] by (simp add: captured_single)
qed

lemma capture_not_nopts: "capture v e = Some ts \<Longrightarrow> ts \<noteq> AV_NOPTS_VALUE"
  by (cases e) (auto simp add: packet_ts_def split: if_splits)

lemma captured_not_nopts: "ts \<in> set (captured v es) \<Longrightarrow> ts \<noteq> AV_NOPTS_VALUE"
  by (auto simp add: captured_def map_filter_def dest: capture_not_nopts)

lemma latest_Nil: "latest v l [] = l"
  by (simp add: latest_def captured_Nil)

lemma latest_append: "latest v l (xs @ ys) = latest v (latest v l xs) ys"
  by (simp add: latest_def captured_append)

lemma latest_no_reads: "\<forall>e\<in>set es. \<not> is_read e \<Longrightarrow> latest v l es = l"
  by (simp add: latest_def captured_no_reads)

lemma latest_read:
  "latest v l [EvRead r p] = (if r < 0 then l else scan_update v p l)"
  by (auto simp add: latest_def captured_single scan_update_def packet_ts_def Let_def)

lemma latest_nopts: "(latest v l es = AV_NOPTS_VALUE) = (l = AV_NOPTS_VALUE \<and> captured v es = [])"
proof (cases "captured v es = []")
  case True
  then show ?thesis by (simp add: latest_def)
next
  case False
  then have "last (captured v es) \<in> set (captured v es)" by simp
  then have "last (captured v es) \<noteq> AV_NOPTS_VALUE" by (rule captured_not_nopts)
  with False show ?thesis by (simp add: latest_def)
qed

lemma scan_packets_trace:
  "\<exists>es. snd (scan_packets L v i l t) = t @ es \<and> (\<forall>e\<in>set es. is_read e) \<and>
        int (length es) \<le> max 0 (10000 - i) \<and> fst (scan_packets L v i l t) = latest v l es"
proof (induction L v i l t rule: scan_packets.induct)
  case (1 L v i l t)
  show ?case
  proof (cases "i < 10000")
    case False
    then show ?thesis
      by (subst (1 2) scan_packets.simps) (simp add: latest_Nil)
  next
    case lt: True
    define rp where "rp = av_read_frame L t"
    define ev where "ev = EvRead (fst rp) (snd rp)"
    show ?thesis
    proof (cases "fst rp < 0")
      case True
      with lt have "scan_packets L v i l t = (l, t @ [ev])"
        by (subst scan_packets.simps) (simp add: rp_def ev_def Let_def)
      moreover have "latest v l [ev] = l" using True by (simp add: ev_def latest_read)
      ultimately show ?thesis using lt by (intro exI [of _ "[ev]"]) (simp add: ev_def)
    next
      case False
      with lt have eq: "scan_packets L v i l t
          = scan_packets L v (i + 1) (scan_update v (snd rp) l) (t @ [ev])"
        by (subst scan_packets.simps) (simp add: rp_def ev_def Let_def)
      have nf: "\<not> fst (av_read_frame L t) < 0" using False by (simp add: rp_def)
      from "1.IH" [OF lt refl refl nf]
      obtain es where es: "snd (scan_packets L v (i + 1) (scan_update v (snd rp) l) (t @ [ev]))
            = (t @ [ev]) @ es" "\<forall>e\<in>set es. is_read e" "int (length es) \<le> max 0 (10000 - (i + 1))"
          "fst (scan_packets L v (i + 1) (scan_update v (snd rp) l) (t @ [ev]))
            = latest v (scan_update v (snd rp) l) es"
        unfolding rp_def ev_def by blast
      have "latest v l (ev # es) = latest v (scan_update v (snd rp) l) es"
        using latest_append [of v l "[ev]" es] False by (simp add: ev_def latest_read)
      with es lt show ?thesis
        unfolding eq by (intro exI [of _ "ev # es"]) (simp add: ev_def)
    qed
  qed
qed

lemma try_seek_to_end_trace:
  "\<exists>es. snd (try_seek_to_end L c t) = t @ es \<and> (\<forall>e\<in>set es. \<not> is_read e)"
  by (auto simp add: try_seek_to_end_def Let_def split: prod.splits if_splits)

lemma step_back_trace:
  "\<exists>es. step_back L c w t = t @ es \<and> (\<forall>e\<in>set es. \<not> is_read e \<and> \<not> is_seek_file e)"
  by (auto simp add: step_back_def Let_def)


lemma stops_no_seek: "\<forall>e\<in>set es. \<not> is_seek_file e \<Longrightarrow> stops_after_capture v es"
  by (auto simp add: stops_after_capture_def)

lemma stops_no_reads:
  assumes "\<forall>e\<in>set es. \<not> is_read e"
  shows "stops_after_capture v es"
  unfolding stops_after_capture_def
proof (intro allI impI)
  fix es1 e es2
  assume "es = es1 @ e # es2"
  with assms have "\<forall>e\<in>set es1. \<not> is_read e" by auto
  then show "captured v es1 = []" by (rule captured_no_reads)
qed

lemma stops_append:
  assumes "stops_after_capture v xs" "stops_after_capture v ys"
    and "captured v xs = [] \<or> (\<forall>e\<in>set ys. \<not> is_seek_file e)"
  shows "stops_after_capture v (xs @ ys)"
  unfolding stops_after_capture_def
proof (intro allI impI)
  fix es1 e es2
  assume eq: "xs @ ys = es1 @ e # es2" and sk: "is_seek_file e"
  from eq consider us where "xs = es1 @ e # us" | us where "es1 = xs @ us" "ys = us @ e # es2"
    by (auto simp add: append_eq_append_conv2 append_eq_Cons_conv Cons_eq_append_conv)
  then show "captured v es1 = []"
  proof cases
    case 1
    with assms(1) sk show ?thesis by (auto simp add: stops_after_capture_def)
  next
    case 2
    with sk have "e \<in> set ys" "is_seek_file e" by auto
    with assms(3) have "captured v xs = []" by auto
    moreover from 2 assms(2) sk have "captured v us = []"
      by (auto simp add: stops_after_capture_def)
    ultimately show ?thesis using 2 by (simp add: captured_append)
  qed
qed

lemma reads_all: "\<forall>e\<in>set es. is_read e \<Longrightarrow> length (filter is_read es) = length es"
  by (induction es) auto

lemma reads_none: "\<forall>e\<in>set es. \<not> is_read e \<Longrightarrow> length (filter is_read es) = 0"
  by (induction es) auto

lemma scan_window_trace:
  "\<exists>es. snd (snd (scan_window L c w l t)) = t @ es \<and>
        stops_after_capture (best_stream c) es \<and>
        fst (snd (scan_window L c w l t)) = latest (best_stream c) l es \<and>
        length (filter is_read es) \<le> 10000 \<and>
        (fst (scan_window L c w l t) \<longrightarrow> latest (best_stream c) l es = AV_NOPTS_VALUE)"
proof -
  let ?v = "best_stream c"
  obtain rs t1 where ts: "try_seek_to_end L c t = (rs, t1)" by (cases "try_seek_to_end L c t")
  from try_seek_to_end_trace [of L c t] ts
  obtain e1 where e1: "t1 = t @ e1" "\<forall>e\<in>set e1. \<not> is_read e" by auto
  show ?thesis
  proof (cases "rs < 0")
    case True
    with ts have "scan_window L c w l t = (False, l, t @ e1)"
      by (simp add: scan_window_def e1)
    with e1 show ?thesis
      by (intro exI [of _ e1]) (simp add: stops_no_reads latest_no_reads reads_none)
  next
    case ok: False
    obtain e2 where e2: "step_back L c w t1 = t1 @ e2" "\<forall>e\<in>set e2. \<not> is_read e"
      using step_back_trace [of L c w t1] by auto
    define a where "a = av_packet_alloc L (t1 @ e2)"
    define pre where "pre = e1 @ e2 @ [EvPacketAlloc a]"
    have pre: "\<forall>e\<in>set pre. \<not> is_read e" using e1 e2 by (auto simp add: pre_def)
    have t3: "t1 @ e2 @ [EvPacketAlloc a] = t @ pre" by (simp add: pre_def e1)
    show ?thesis
    proof (cases a)
      case False
      with t3 have "t1 @ e2 @ [EvPacketAlloc False] = t @ pre" by simp
      with ts ok False have "scan_window L c w l t = (False, l, t @ pre)"
        by (simp add: scan_window_def e2 a_def [symmetric] Let_def)
      with pre show ?thesis
        by (intro exI [of _ pre]) (simp add: stops_no_reads latest_no_reads reads_none)
    next
      case True
      obtain rd where rd: "snd (scan_packets L ?v 0 l (t @ pre)) = (t @ pre) @ rd"
          "\<forall>e\<in>set rd. is_read e" "int (length rd) \<le> max 0 (10000 - 0)"
          "fst (scan_packets L ?v 0 l (t @ pre)) = latest ?v l rd"
        using scan_packets_trace [of L ?v 0 l "t @ pre"] by blast
      from True t3 have t3': "t1 @ e2 @ [EvPacketAlloc True] = t @ pre" by simp
      from ts ok True have sw: "scan_window L c w l t =
          (latest ?v l rd = AV_NOPTS_VALUE, latest ?v l rd, t @ pre @ rd)"
        using rd(1,4)
        by (auto simp add: scan_window_def e2 a_def [symmetric] t3' Let_def split: prod.splits)
      have "\<forall>e\<in>set rd. \<not> is_seek_file e"
      proof
        fix e assume "e \<in> set rd"
        with rd(2) have "is_read e" by auto
        then show "\<not> is_seek_file e" by (cases e) simp_all
      qed
      then have st: "stops_after_capture ?v (pre @ rd)"
        using pre by (intro stops_append stops_no_reads stops_no_seek) simp_all
      have lt: "latest ?v l (pre @ rd) = latest ?v l rd"
        using pre by (simp add: latest_append latest_no_reads)
      have cnt: "length (filter is_read (pre @ rd)) \<le> 10000"
        using pre rd(2,3) by (simp add: reads_none reads_all)
      from sw st lt cnt show ?thesis
        by (intro exI [of _ "pre @ rd"]) simp
    qed
  qed
qed

lemma scan_windows_trace:
  "\<exists>es. snd (scan_windows L c ws AV_NOPTS_VALUE t) = t @ es \<and>
        stops_after_capture (best_stream c) es \<and>
        fst (scan_windows L c ws AV_NOPTS_VALUE t) = latest (best_stream c) AV_NOPTS_VALUE es \<and>
        length (filter is_read es) \<le> 10000 * length ws"
proof (induction ws arbitrary: t)
  case Nil
  show ?case
    by (intro exI [of _ "[]"]) (simp add: latest_Nil stops_after_capture_def)
next
  case (Cons w ws)
  let ?v = "best_stream c"
  obtain go l' t' where sw: "scan_window L c w AV_NOPTS_VALUE t = (go, l', t')"
    by (cases "scan_window L c w AV_NOPTS_VALUE t")
  from scan_window_trace [of L c w AV_NOPTS_VALUE t] sw
  obtain e1 where e1: "t' = t @ e1" "stops_after_capture ?v e1"
      "l' = latest ?v AV_NOPTS_VALUE e1" "length (filter is_read e1) \<le> 10000"
      "go \<longrightarrow> latest ?v AV_NOPTS_VALUE e1 = AV_NOPTS_VALUE"
    by auto
  show ?case
  proof (cases go)
    case False
    with sw e1 show ?thesis
      by (intro exI [of _ e1]) simp
  next
    case True
    with e1 have l': "l' = AV_NOPTS_VALUE" and cap: "captured ?v e1 = []"
      by (simp_all add: latest_nopts)
    from Cons.IH [of t'] obtain e2 where e2:
        "snd (scan_windows L c ws AV_NOPTS_VALUE t') = t' @ e2" "stops_after_capture ?v e2"
        "fst (scan_windows L c ws AV_NOPTS_VALUE t') = latest ?v AV_NOPTS_VALUE e2"
        "length (filter is_read e2) \<le> 10000 * length ws"
      by blast
    have "stops_after_capture ?v (e1 @ e2)"
      using e1(2) e2(2) cap by (intro stops_append) simp_all
    moreover have "latest ?v AV_NOPTS_VALUE (e1 @ e2) = latest ?v AV_NOPTS_VALUE e2"
      using e1(3) l' by (simp add: latest_append)
    ultimately show ?thesis
      using sw True l' e1(1,4) e2
      by (intro exI [of _ "e1 @ e2"]) simp
  qed
qed


lemma precise_video:
  assumes "opened (W (Some path))" "best_stream (W (Some path)) \<ge> 0"
  shows "ff_precise_duration W L (Some path) =
     (let c = W (Some path);
          lt = scan_windows L c windows_sec AV_NOPTS_VALUE [];
          r = precise_choice c (fst lt)
      in (if d_gt0 r then r else NaN, snd lt))"
  using assms
  by (simp add: ff_precise_duration_def opened_def Let_def split: prod.splits)

lemma precise_no_video:
  assumes "opened (W (Some path))" "best_stream (W (Some path)) < 0"
  shows "ff_precise_duration W L (Some path) =
     (if f_duration (fmtctx (W (Some path))) > 0
      then Fin (real_of_int (f_duration (fmtctx (W (Some path)))) / 1000000) else NaN, [])"
  using assms
  by (simp add: ff_precise_duration_def opened_def Let_def d_of_int_def AV_TIME_BASE_def)

lemma precise_trace:
  "\<exists>es. snd (ff_precise_duration W L path) = es \<and>
        stops_after_capture (best_stream (W path)) es \<and>
        length (filter is_read es) \<le> 30000 \<and>
        (path \<noteq> None \<and> opened (W path) \<and> best_stream (W path) \<ge> 0 \<longrightarrow>
         fst (scan_windows L (W path) windows_sec AV_NOPTS_VALUE [])
           = latest (best_stream (W path)) AV_NOPTS_VALUE es)"
proof (cases "path \<noteq> None \<and> opened (W path) \<and> best_stream (W path) \<ge> 0")
  case True
  then obtain p where p: "path = Some p" by auto
  from scan_windows_trace [of L "W path" windows_sec "[]"]
  obtain es where es: "snd (scan_windows L (W path) windows_sec AV_NOPTS_VALUE []) = es"
      "stops_after_capture (best_stream (W path)) es"
      "fst (scan_windows L (W path) windows_sec AV_NOPTS_VALUE [])
         = latest (best_stream (W path)) AV_NOPTS_VALUE es"
      "length (filter is_read es) \<le> 10000 * length windows_sec"
    by auto
  have "snd (ff_precise_duration W L path) = es"
    using True es(1) unfolding p by (simp add: precise_video Let_def)
  with es show ?thesis by (simp add: windows_sec_def)
next
  case False
  then have "snd (ff_precise_duration W L path) = []"
    by (auto simp add: ff_precise_duration_def opened_def Let_def)
  with False show ?thesis by (auto simp add: stops_after_capture_def)
qed

text \<open>
  C9. For every library and every starting state, the packet scan of one window makes
  at most 10,000 calls of \<^verbatim>\<open>av_read_frame\<close> (the scan is a total function: it stops
  whatever the library answers); a whole call of \<^verbatim>\<open>ff_precise_duration\<close> with its three
  windows makes at most 30,000; and the loop over the windows stops as soon as a
  timestamp has been captured: in the trace of the call, nothing was captured before
  any \<^verbatim>\<open>avformat_seek_file\<close>, the call that starts a window.
\<close>

theorem precise_scan_bounded:
  "length (filter is_read (snd (scan_packets L v 0 l t))) \<le> length (filter is_read t) + 10000 \<and>
   length (filter is_read (snd (ff_precise_duration W L path))) \<le> 30000 \<and>
   (\<forall>es1 e es2. snd (ff_precise_duration W L path) = es1 @ e # es2 \<longrightarrow> is_seek_file e \<longrightarrow>
      captured (best_stream (W path)) es1 = [])"
proof -
  obtain rd where rd: "snd (scan_packets L v 0 l t) = t @ rd" "\<forall>e\<in>set rd. is_read e"
      "int (length rd) \<le> max 0 (10000 - 0)"
    using scan_packets_trace [of L v 0 l t] by blast
  then have "length (filter is_read (snd (scan_packets L v 0 l t)))
      \<le> length (filter is_read t) + 10000"
    by (simp add: reads_all)
  moreover from precise_trace [of W L path]
  have "length (filter is_read (snd (ff_precise_duration W L path))) \<le> 30000"
    and "stops_after_capture (best_stream (W path)) (snd (ff_precise_duration W L path))"
    by auto
  ultimately show ?thesis
    unfolding stops_after_capture_def by blast
qed

text \<open>
  C7, as the code has it. For a container that opens: with no video stream the result
  is the container duration over the global time unit when positive, else NaN. With a
  video stream the value is chosen by priority: the last captured packet timestamp
  times the time base when the scans captured any timestamp; else the stream duration
  times the time base when the stream duration is known and positive; else the
  container duration over the global time unit when positive; else NaN. The chosen
  value is returned when it is greater than zero, and NaN is returned when it is not:
  a captured timestamp whose product with the time base is not positive gives NaN and
  does not fall through to the later tiers.
\<close>

theorem precise_duration_priority:
  assumes "opened (W (Some path))"
    and "c = W (Some path)" and "s = vstream_of c" and "tb = time_base s"
    and "caps = captured (best_stream c) (snd (ff_precise_duration W L (Some path)))"
    and "by_packet = d_mul (d_of_int (last caps)) (av_q2d tb)"
    and "by_stream = d_mul (d_of_int (s_duration s)) (av_q2d tb)"
    and "by_container = Fin (real_of_int (f_duration (fmtctx c)) / 1000000)"
  shows "(best_stream c < 0 \<longrightarrow>
            fst (ff_precise_duration W L (Some path)) =
              (if f_duration (fmtctx c) > 0 then by_container else NaN)) \<and>
         (best_stream c \<ge> 0 \<and> caps \<noteq> [] \<longrightarrow>
            fst (ff_precise_duration W L (Some path)) =
              (if d_gt0 by_packet then by_packet else NaN)) \<and>
         (best_stream c \<ge> 0 \<and> caps = [] \<and> s_duration s \<noteq> AV_NOPTS_VALUE \<and> s_duration s > 0 \<longrightarrow>
            fst (ff_precise_duration W L (Some path)) =
              (if d_gt0 by_stream then by_stream else NaN)) \<and>
         (best_stream c \<ge> 0 \<and> caps = [] \<and> \<not> (s_duration s \<noteq> AV_NOPTS_VALUE \<and> s_duration s > 0) \<longrightarrow>
            fst (ff_precise_duration W L (Some path)) =
              (if f_duration (fmtctx c) > 0 then by_container else NaN))"
proof (cases "best_stream c \<ge> 0")
  case False
  with assms(1) show ?thesis
    unfolding assms(2,8) by (simp add: precise_no_video)
next
  case True
  define l where "l = fst (scan_windows L c windows_sec AV_NOPTS_VALUE [])"
  from precise_trace [of W L "Some path"] assms(1) True
  have l: "l = latest (best_stream c) AV_NOPTS_VALUE (snd (ff_precise_duration W L (Some path)))"
    unfolding l_def assms(2) by simp
  have r: "fst (ff_precise_duration W L (Some path)) =
      (if d_gt0 (precise_choice c l) then precise_choice c l else NaN)"
    using assms(1) True unfolding assms(2) l_def by (simp add: precise_video Let_def)
  have l1: "caps \<noteq> [] \<Longrightarrow> l = last caps \<and> l \<noteq> AV_NOPTS_VALUE"
    using latest_nopts [of "best_stream c" AV_NOPTS_VALUE "snd (ff_precise_duration W L (Some path))"]
    unfolding l assms(5) by (simp add: latest_def)
  have l2: "caps = [] \<Longrightarrow> l = AV_NOPTS_VALUE"
    unfolding l assms(5) by (simp add: latest_def)
  have ch1: "caps \<noteq> [] \<Longrightarrow> precise_choice c l = by_packet"
    using l1 by (simp add: precise_choice_def Let_def assms(3,4,6))
  have ch2: "caps = [] \<Longrightarrow> s_duration s \<noteq> AV_NOPTS_VALUE \<and> s_duration s > 0 \<Longrightarrow>
      precise_choice c l = by_stream"
    using l2 by (simp add: precise_choice_def Let_def assms(3,4,7))
  have ch3: "caps = [] \<Longrightarrow> \<not> (s_duration s \<noteq> AV_NOPTS_VALUE \<and> s_duration s > 0) \<Longrightarrow>
      precise_choice c l = (if f_duration (fmtctx c) > 0 then by_container else NaN)"
    using l2 by (auto simp add: precise_choice_def Let_def assms(3,4,8) d_of_int_def AV_TIME_BASE_def)
  from True r ch1 ch2 ch3 show ?thesis
    by (auto simp add: assms(8))
qed

section \<open>Precise duration on a source with one packet\<close>

lemma scan_packets_unfold:
  "scan_packets L v i l t =
    (if i < 10000
     then if fst (av_read_frame L t) < 0
          then (l, t @ [EvRead (fst (av_read_frame L t)) (snd (av_read_frame L t))])
          else scan_packets L v (i + 1) (scan_update v (snd (av_read_frame L t)) l)
                 (t @ [EvRead (fst (av_read_frame L t)) (snd (av_read_frame L t))])
     else (l, t))"
  by (subst scan_packets.simps) (simp add: Let_def)

lemma single_read_first:
  "filter is_read t = [] \<Longrightarrow> av_read_frame (single_packet_lib ts) t = (0, one_packet ts)"
  by (simp add: single_packet_lib_def)

lemma single_read_later:
  "filter is_read t \<noteq> [] \<Longrightarrow> av_read_frame (single_packet_lib ts) t = (AVERROR_EOF, blank_packet)"
  by (simp add: single_packet_lib_def)

lemma single_packet_scan:
  "filter is_read t = [] \<Longrightarrow> 
   scan_packets (single_packet_lib ts) 0 0 l t
    = (scan_update 0 (one_packet ts) l, t @ [EvRead 0 (one_packet ts), EvRead AVERROR_EOF blank_packet])"
  apply (subst scan_packets_unfold)
  apply (simp add: single_read_first)
  apply (subst scan_packets_unfold)
  apply (simp add: single_read_later AVERROR_EOF_def)
  done


lemma single_packet_windows:
  "ts \<noteq> AV_NOPTS_VALUE \<Longrightarrow>
   scan_windows (single_packet_lib ts) clip windows_sec AV_NOPTS_VALUE []
    = (ts, [EvSeekFile 0, EvPacketAlloc True, EvRead 0 (one_packet ts),
            EvRead AVERROR_EOF blank_packet])"
  by (simp add: windows_sec_def scan_window_def try_seek_to_end_def step_back_def Let_def
        single_packet_scan clip_def scan_update_def one_packet_def)
     (simp add: single_packet_lib_def)

lemma single_packet_precise:
  "ts \<noteq> AV_NOPTS_VALUE \<Longrightarrow>
   ff_precise_duration (\<lambda>p. clip) (single_packet_lib ts) (Some ''clip.mov'')
    = (if 0 < ts then Fin (real_of_int ts / 30) else NaN,
       [EvSeekFile 0, EvPacketAlloc True, EvRead 0 (one_packet ts),
        EvRead AVERROR_EOF blank_packet])"
  by (simp add: ff_precise_duration_def Let_def single_packet_windows precise_choice_def)
     (simp add: clip_def clip_stream_def av_q2d_def d_of_int_def)

lemma single_packet_captured:
  "ts \<noteq> AV_NOPTS_VALUE \<Longrightarrow>
   captured 0 [EvSeekFile 0, EvPacketAlloc True, EvRead 0 (one_packet ts),
        EvRead AVERROR_EOF blank_packet] = [ts]"
  by (simp add: captured_def map_filter_def packet_ts_def one_packet_def AVERROR_EOF_def)

text \<open>
  C7 as stated fails when the captured timestamp is not positive: for a source whose
  only video packet is stamped 0 the scan captures that timestamp, and the result is
  NaN: neither the product 0 of the first tier nor the stream duration of the second.
\<close>

theorem precise_zero_timestamp_counterexample:
  "ff_precise_duration (\<lambda>p. clip) (single_packet_lib 0) (Some ''clip.mov'')
     = (NaN, [EvSeekFile 0, EvPacketAlloc True, EvRead 0 (one_packet 0),
              EvRead AVERROR_EOF blank_packet]) \<and>
   captured (best_stream clip)
     [EvSeekFile 0, EvPacketAlloc True, EvRead 0 (one_packet 0),
      EvRead AVERROR_EOF blank_packet] = [0] \<and>
   d_mul (d_of_int 0) (av_q2d (time_base (vstream_of clip))) = Fin 0"
  using single_packet_precise [of 0] single_packet_captured [of 0]
  by (simp add: AV_NOPTS_VALUE_def) (simp add: clip_def clip_stream_def av_q2d_def d_of_int_def)

theorem precise_duration_priority_witness:
  "fst (ff_precise_duration (\<lambda>p. clip) (single_packet_lib 299) (Some ''clip.mov''))
     = Fin (299 / 30) \<and>
   fst (ff_precise_duration (\<lambda>p. clip\<lparr>best_stream := - 1\<rparr>) (single_packet_lib 299)
          (Some ''clip.mov'')) = Fin 10"
proof -
  have o: "opened clip" "opened (clip\<lparr>best_stream := - 1\<rparr>)"
    by (simp_all add: opened_def clip_def)
  have n: "(299 :: int) \<noteq> AV_NOPTS_VALUE" by (simp add: AV_NOPTS_VALUE_def)
  have c: "captured (best_stream clip)
      (snd (ff_precise_duration (\<lambda>p. clip) (single_packet_lib 299) (Some ''clip.mov''))) = [299]"
    using single_packet_precise [OF n] single_packet_captured [OF n] by (simp add: clip_def)
  from precise_duration_priority
         [of "\<lambda>p. clip" "''clip.mov''" _ _ _ _ "single_packet_lib 299",
          OF o(1) refl refl refl refl refl refl refl]
       precise_duration_priority
         [of "\<lambda>p. clip\<lparr>best_stream := - 1\<rparr>" "''clip.mov''" _ _ _ _ "single_packet_lib 299",
          OF o(2) refl refl refl refl refl refl refl]
  show ?thesis
    unfolding c by (simp add: clip_def clip_stream_def av_q2d_def d_of_int_def)
qed

text \<open>On the endless source the scan of a window stops at the cap, after 10,000 reads.\<close>

lemma endless_scan:
  "i \<le> 10000 \<Longrightarrow>
   fst (scan_packets endless_lib 0 i l t) = l \<and>
   int (length (filter is_read (snd (scan_packets endless_lib 0 i l t))))
     = int (length (filter is_read t)) + (10000 - i)"
proof (induction endless_lib "0 :: int" i l t rule: scan_packets.induct)
  case (1 i l t)
  show ?case
  proof (cases "i < 10000")
    case False
    with "1.prems" show ?thesis
      by (subst (1 2) scan_packets_unfold) simp
  next
    case True
    have rd: "av_read_frame endless_lib t = (0, audio_packet)"
      by (simp add: endless_lib_def)
    have up: "scan_update 0 audio_packet l = l"
      by (simp add: scan_update_def audio_packet_def)
    from True have nf: "\<not> fst (av_read_frame endless_lib t) < 0" by (simp add: rd)
    from "1.hyps" [OF True refl refl nf] True
    have "fst (scan_packets endless_lib 0 (i + 1) l (t @ [EvRead 0 audio_packet])) = l \<and>
      int (length (filter is_read (snd (scan_packets endless_lib 0 (i + 1) l (t @ [EvRead 0 audio_packet])))))
     = int (length (filter is_read (t @ [EvRead 0 audio_packet]))) + (10000 - (i + 1))"
      by (simp add: rd up)
    with True show ?thesis
      by (subst (1 2) scan_packets_unfold) (simp add: rd up)
  qed
qed

lemma endless_scan_reads:
  "length (filter is_read (snd (scan_packets endless_lib 0 0 AV_NOPTS_VALUE []))) = 10000"
  using endless_scan [of 0 AV_NOPTS_VALUE "[]"] by simp

theorem precise_scan_bounded_witness:
  "snd (ff_precise_duration (\<lambda>p. clip) (single_packet_lib 299) (Some ''clip.mov''))
     = [EvSeekFile 0, EvPacketAlloc True, EvRead 0 (one_packet 299),
        EvRead AVERROR_EOF blank_packet] \<and>
   length (filter is_read
     (snd (ff_precise_duration (\<lambda>p. clip) (single_packet_lib 299) (Some ''clip.mov''))))
     \<le> 30000 \<and>
   captured (best_stream clip) [] = [] \<and>
   length (filter is_read (snd (scan_packets endless_lib 0 0 AV_NOPTS_VALUE []))) = 10000"
proof -
  have n: "(299 :: int) \<noteq> AV_NOPTS_VALUE" by (simp add: AV_NOPTS_VALUE_def)
  have t: "snd (ff_precise_duration (\<lambda>p. clip) (single_packet_lib 299) (Some ''clip.mov''))
     = [] @ EvSeekFile 0 # [EvPacketAlloc True, EvRead 0 (one_packet 299),
        EvRead AVERROR_EOF blank_packet]"
    using single_packet_precise [OF n] by simp
  from precise_scan_bounded [of "single_packet_lib 299" 0 AV_NOPTS_VALUE "[]" "\<lambda>p. clip"
         "Some ''clip.mov''"]
    precise_scan_bounded [of endless_lib 0 AV_NOPTS_VALUE "[]" "\<lambda>p. clip" "Some ''clip.mov''"]
    t endless_scan_reads
  show ?thesis by simp
qed

section \<open>The decode pump: returns\<close>

lemma averror_neg: "AVERROR_EOF < 0" "AVERROR_EAGAIN < 0" "AVERROR_EOF \<noteq> AVERROR_EAGAIN"
  by (simp_all add: AVERROR_EOF_def AVERROR_EAGAIN_def)

lemma receive_step_returns:
  "receive_step L c p want t = Inl res \<Longrightarrow> returns_well res \<and> player res = p"
  using averror_neg
  by (auto simp add: receive_step_def returns_well_def Let_def split: if_splits option.splits)

lemma receive_step_continues:
  "receive_step L c p want t = Inr (p', t') \<Longrightarrow> p' = p"
  by (auto simp add: receive_step_def Let_def split: if_splits option.splits)

lemma pump_iter_returns:
  "pump_iter L c p want t = Inl res \<Longrightarrow> returns_well res"
  using averror_neg
  by (auto simp add: pump_iter_def Let_def returns_well_def split: if_splits
        dest!: receive_step_returns)

lemma pump_iter_eof_kept:
  "pump_iter L c p want t = Inr (p', t') \<Longrightarrow> at_eof p \<noteq> 0 \<Longrightarrow> at_eof p' \<noteq> 0"
  by (auto simp add: pump_iter_def Let_def split: if_splits dest!: receive_step_continues)

lemma pump_loop_returns:
  "pump_loop L n c p want t = Some res \<Longrightarrow> returns_well res"
proof (induction n arbitrary: p t)
  case 0
  then show ?case by simp
next
  case (Suc n)
  then show ?case
    by (auto split: sum.splits dest: pump_iter_returns)
qed

lemma ff_next_frame_returns:
  "ff_next_frame L n p want t = Some (Inr res) \<Longrightarrow> returns_well res"
  by (auto simp add: ff_next_frame_def setup_sws_def Let_def returns_well_def
        split: option.splits if_splits prod.splits dest: pump_loop_returns)

lemma pump_loop_steps:
  "pump_steps L c want k (p, t) = Some (p', t') \<Longrightarrow>
   pump_loop L (k + n) c p want t = pump_loop L n c p' want t'"
proof (induction k arbitrary: p t)
  case 0
  then show ?case by simp
next
  case (Suc k)
  then show ?case
    by (auto split: sum.splits)
qed

lemma pump_steps_eof_kept:
  "pump_steps L c want k (p, t) = Some (p', t') \<Longrightarrow> at_eof p \<noteq> 0 \<Longrightarrow> at_eof p' \<noteq> 0"
proof (induction k arbitrary: p t)
  case 0
  then show ?case by simp
next
  case (Suc k)
  then show ?case
    by (auto split: sum.splits dest: pump_iter_eof_kept)
qed

lemma ff_next_frame_loop:
  assumes "fmt p = Some c" "vdec p = Some d" "frame p" "pkt p"
    and "setup_sws L p t = (0, p1, t1)"
  shows "ff_next_frame L n p want t = map_option Inr (pump_loop L n c p1 want t1)"
  using assms
  by (auto simp add: ff_next_frame_def setup_sws_def Let_def split: if_splits)


text \<open>The sample session is the one \<^verbatim>\<open>ff_open\<close> returns for the clip.\<close>

lemma open_clip:
  "map_option session (ff_open (\<lambda>p. clip) (Some ''clip.mov'')) = Some clip_session"
  by (simp add: ff_open_def Let_def clip_session_def) (simp add: clip_def)

text \<open>
  C10. Whenever \<^verbatim>\<open>ff_next_frame\<close> returns a code other than 1, the out image buffer is
  null, and when it returns 1 the buffer is set: no error or end-of-stream result comes
  with a pixel buffer. When the conversion context cannot be set up the call returns -2
  with a null buffer before any packet is read.
\<close>

theorem out_buffer_null_unless_frame:
  "(\<forall>res. ff_next_frame L n p want t = Some (Inr res) \<longrightarrow>
      (rc res \<noteq> 1 \<longrightarrow> out_ib res = None) \<and> (rc res = 1 \<longrightarrow> out_ib res \<noteq> None)) \<and>
   (fmt p \<noteq> None \<and> vdec p \<noteq> None \<and> frame p \<and> pkt p \<and> \<not> sws p \<and> \<not> sws_getContext L t \<longrightarrow>
      ff_next_frame L n p want t =
        Some (Inr \<lparr>rc = - 2, out_ib = None, out_pts = None, player = p\<lparr>sws := False\<rparr>,
                   calls = t @ [EvSwsGetContext False]\<rparr>))"
proof -
  have "\<forall>res. ff_next_frame L n p want t = Some (Inr res) \<longrightarrow>
      (rc res \<noteq> 1 \<longrightarrow> out_ib res = None) \<and> (rc res = 1 \<longrightarrow> out_ib res \<noteq> None)"
    using ff_next_frame_returns [of L n p want t] by (auto simp add: returns_well_def)
  moreover have "fmt p \<noteq> None \<and> vdec p \<noteq> None \<and> frame p \<and> pkt p \<and> \<not> sws p \<and> \<not> sws_getContext L t \<longrightarrow>
      ff_next_frame L n p want t =
        Some (Inr \<lparr>rc = - 2, out_ib = None, out_pts = None, player = p\<lparr>sws := False\<rparr>,
                   calls = t @ [EvSwsGetContext False]\<rparr>)"
    by (auto simp add: ff_next_frame_def setup_sws_def Let_def)
  ultimately show ?thesis by blast
qed

text \<open>
  C8. On an open session whose conversion context exists or is set up, take any turn of
  the loop of one call (the state after \<open>k\<close> turns that ended in \<^verbatim>\<open>continue\<close>) at
  which the session is not at end of input and \<^verbatim>\<open>av_read_frame\<close> fails with a negative
  code other than \<^verbatim>\<open>AVERROR_EOF\<close>. Then the call returns that code, with a null
  buffer; the failed read is the last library call of the trace, so neither a packet
  nor the drain marker is sent to the decoder after it; the session is as it was before
  the read, and its end-of-input flag is the one the call started with.
\<close>

theorem read_error_propagates:
  assumes "fmt p = Some c" "vdec p = Some d" "frame p" "pkt p"
    and "setup_sws L p t = (0, p1, t1)"
    and "pump_steps L c want k (p1, t1) = Some (p', t')"
    and "at_eof p' = 0"
    and "av_read_frame L t' = (r, pk)" "r < 0" "r \<noteq> AVERROR_EOF"
  shows "ff_next_frame L (k + Suc n) p want t =
           Some (Inr \<lparr>rc = r, out_ib = None, out_pts = None, player = p',
                      calls = t' @ [EvRead r pk]\<rparr>) \<and>
         at_eof p' = at_eof p"
proof -
  have it: "pump_iter L c p' want t' =
      Inl \<lparr>rc = r, out_ib = None, out_pts = None, player = p', calls = t' @ [EvRead r pk]\<rparr>"
    using assms(7-10) by (simp add: pump_iter_def Let_def)
  have "ff_next_frame L (k + Suc n) p want t
      = map_option Inr (pump_loop L (k + Suc n) c p1 want t1)"
    using assms(1-5) by (rule ff_next_frame_loop)
  also have "pump_loop L (k + Suc n) c p1 want t1 = pump_loop L (Suc n) c p' want t'"
    using assms(6) by (rule pump_loop_steps)
  finally have res: "ff_next_frame L (k + Suc n) p want t =
           Some (Inr \<lparr>rc = r, out_ib = None, out_pts = None, player = p',
                      calls = t' @ [EvRead r pk]\<rparr>)"
    by (simp add: it)
  have "at_eof p1 = at_eof p"
    using assms(5) by (auto simp add: setup_sws_def Let_def split: if_splits)
  moreover have "at_eof p1 = 0"
    using pump_steps_eof_kept [OF assms(6)] assms(7) by auto
  ultimately show ?thesis using res assms(7) by simp
qed

text \<open>The trace of a call is faithful to the decoder's answers.\<close>

lemma recv_faithful_append:
  "recv_faithful L t xs \<Longrightarrow> (\<forall>y. EvRecv AVERROR_EOF y \<notin> set xs) \<Longrightarrow>
   recv_faithful L (t @ xs) ys \<Longrightarrow> recv_faithful L t (xs @ ys)"
proof (induction xs arbitrary: t)
  case Nil
  then show ?case by simp
next
  case (Cons e xs)
  then show ?case by (cases e) auto
qed

lemma recv_faithful_at:
  "recv_faithful L t (u @ EvRecv r y # rest) \<Longrightarrow>
   avcodec_receive_frame L (t @ u) = (r, y) \<and> (r = AVERROR_EOF \<longrightarrow> rest = [])"
proof (induction u arbitrary: t)
  case Nil
  then show ?case by simp
next
  case (Cons e u)
  from Cons.prems have "recv_faithful L (t @ [e]) (u @ EvRecv r y # rest)"
    by (cases e) auto
  from Cons.IH [OF this] show ?case by simp
qed

lemma receive_step_faithful:
  "receive_step L c p want t = Inl res \<Longrightarrow>
     \<exists>es. calls res = t @ es \<and> es \<noteq> [] \<and> recv_faithful L t es"
  "receive_step L c p want t = Inr (p', t') \<Longrightarrow>
     \<exists>es. t' = t @ es \<and> recv_faithful L t es \<and> (\<forall>y. EvRecv AVERROR_EOF y \<notin> set es)"
  using averror_neg
  by (auto simp add: receive_step_def Let_def prod_eq_iff split: if_splits option.splits)

lemma pump_iter_faithful:
  "pump_iter L c p want t = Inl res \<Longrightarrow>
     \<exists>es. calls res = t @ es \<and> es \<noteq> [] \<and> recv_faithful L t es"
  "pump_iter L c p want t = Inr (p', t') \<Longrightarrow>
     \<exists>es. t' = t @ es \<and> recv_faithful L t es \<and> (\<forall>y. EvRecv AVERROR_EOF y \<notin> set es)"
  by (auto simp add: pump_iter_def Let_def split: if_splits dest!: receive_step_faithful)


lemma pump_loop_faithful:
  "pump_loop L n c p want t = Some res \<Longrightarrow>
     \<exists>es. calls res = t @ es \<and> es \<noteq> [] \<and> recv_faithful L t es"
proof (induction n arbitrary: p t)
  case 0
  then show ?case by simp
next
  case (Suc n)
  show ?case
  proof (cases "pump_iter L c p want t")
    case (Inl r)
    with Suc.prems have "r = res" by simp
    with Inl show ?thesis by (auto dest: pump_iter_faithful(1))
  next
    case (Inr s)
    obtain p' t' where s: "s = (p', t')" by (cases s)
    from pump_iter_faithful(2) [OF Inr [unfolded s]]
    obtain e1 where e1: "t' = t @ e1" "recv_faithful L t e1" "\<forall>y. EvRecv AVERROR_EOF y \<notin> set e1"
      by blast
    from Suc.prems Inr s have "pump_loop L n c p' want t' = Some res" by simp
    from Suc.IH [OF this]
    obtain e2 where e2: "calls res = t' @ e2" "e2 \<noteq> []" "recv_faithful L t' e2" by blast
    have "recv_faithful L t (e1 @ e2)"
      using e1 e2 by (intro recv_faithful_append) simp_all
    with e1 e2 show ?thesis by (intro exI [of _ "e1 @ e2"]) simp
  qed
qed

lemma ff_next_frame_faithful:
  assumes "ff_next_frame L n p want t = Some (Inr res)"
  shows "\<exists>es. calls res = t @ es \<and> es \<noteq> [] \<and> recv_faithful L t es"
proof -
  obtain c d where cd: "fmt p = Some c" "vdec p = Some d" and fp: "frame p" "pkt p"
    using assms by (auto simp add: ff_next_frame_def split: option.splits if_splits)
  show ?thesis
  proof (cases "sws p")
    case True
    with assms cd fp have "pump_loop L n c p want t = Some res"
      by (auto simp add: ff_next_frame_def)
    then show ?thesis by (rule pump_loop_faithful)
  next
    case False
    show ?thesis
    proof (cases "sws_getContext L t")
      case False
      with \<open>\<not> sws p\<close> assms cd fp have "calls res = t @ [EvSwsGetContext False]"
        by (auto simp add: ff_next_frame_def setup_sws_def Let_def)
      then show ?thesis by (intro exI [of _ "[EvSwsGetContext False]"]) simp
    next
      case True
      with \<open>\<not> sws p\<close> assms cd fp
      have "pump_loop L n c (p\<lparr>sws := True\<rparr>) want (t @ [EvSwsGetContext True]) = Some res"
        by (auto simp add: ff_next_frame_def setup_sws_def Let_def)
      from pump_loop_faithful [OF this]
      obtain es where es: "calls res = (t @ [EvSwsGetContext True]) @ es" "es \<noteq> []"
          "recv_faithful L (t @ [EvSwsGetContext True]) es"
        by blast
      then show ?thesis by (intro exI [of _ "EvSwsGetContext True # es"]) simp
    qed
  qed
qed

text \<open>
  C2. Take an open session whose conversion context exists or is set up, and any turn
  of the loop of one call (the state after \<open>k\<close> turns that ended in \<^verbatim>\<open>continue\<close>).
  If the session is not yet at end of input and \<^verbatim>\<open>av_read_frame\<close> answers
  \<^verbatim>\<open>AVERROR_EOF\<close>, the flag is set, the drain marker is sent (whatever the answer) and
  the decoder is asked; if it answers \<^verbatim>\<open>AVERROR_EOF\<close> the call returns 0 with a null
  buffer. If the session is already at end of input, the drain marker is sent again: an
  answer that is negative and not \<^verbatim>\<open>AVERROR(EAGAIN)\<close> is returned as it is and the
  decoder is not asked; otherwise the decoder is asked, and if it answers
  \<^verbatim>\<open>AVERROR_EOF\<close> the call returns 0 with a null buffer. For every call that returns:
  each \<^verbatim>\<open>avcodec_receive_frame\<close> in its trace carries the answer the library gave at
  that point, and one that answered \<^verbatim>\<open>AVERROR_EOF\<close> is the last library call, with
  return code 0 and a null buffer; a return code of 0 comes with a null buffer and only
  from a last call \<^verbatim>\<open>avcodec_receive_frame\<close> that the library answered with
  \<^verbatim>\<open>AVERROR_EOF\<close>; and every return code is 0, 1 or negative.
\<close>

theorem drained_returns_zero:
  "(fmt p = Some c \<and> vdec p = Some d \<and> frame p \<and> pkt p \<and>
    setup_sws L p t = (0, p1, t1) \<and> pump_steps L c want k (p1, t1) = Some (p', t') \<longrightarrow>
      (at_eof p' = 0 \<and> av_read_frame L t' = (AVERROR_EOF, pk) \<and>
       avcodec_send_packet L (t' @ [EvRead AVERROR_EOF pk]) None = rs \<and>
       avcodec_receive_frame L (t' @ [EvRead AVERROR_EOF pk, EvSend None rs]) = (AVERROR_EOF, x) \<longrightarrow>
         ff_next_frame L (k + Suc n) p want t =
           Some (Inr \<lparr>rc = 0, out_ib = None, out_pts = None, player = p'\<lparr>at_eof := 1\<rparr>,
                      calls = t' @ [EvRead AVERROR_EOF pk, EvSend None rs,
                                    EvRecv AVERROR_EOF x]\<rparr>)) \<and>
      (at_eof p' \<noteq> 0 \<and> avcodec_send_packet L t' None = rs \<and>
       \<not> (rs < 0 \<and> rs \<noteq> AVERROR_EAGAIN) \<and>
       avcodec_receive_frame L (t' @ [EvSend None rs]) = (AVERROR_EOF, x) \<longrightarrow>
         ff_next_frame L (k + Suc n) p want t =
           Some (Inr \<lparr>rc = 0, out_ib = None, out_pts = None, player = p',
                      calls = t' @ [EvSend None rs, EvRecv AVERROR_EOF x]\<rparr>)) \<and>
      (at_eof p' \<noteq> 0 \<and> avcodec_send_packet L t' None = rs \<and>
       rs < 0 \<and> rs \<noteq> AVERROR_EAGAIN \<longrightarrow>
         ff_next_frame L (k + Suc n) p want t =
           Some (Inr \<lparr>rc = rs, out_ib = None, out_pts = None, player = p',
                      calls = t' @ [EvSend None rs]\<rparr>))) \<and>
   (\<forall>res. ff_next_frame L m p want t = Some (Inr res) \<longrightarrow>
      (\<forall>u r y rest. calls res = t @ u @ EvRecv r y # rest \<longrightarrow>
         avcodec_receive_frame L (t @ u) = (r, y) \<and>
         (r = AVERROR_EOF \<longrightarrow> rest = [] \<and> rc res = 0 \<and> out_ib res = None)) \<and>
      (rc res = 0 \<longrightarrow>
         out_ib res = None \<and>
         (\<exists>u y. calls res = u @ [EvRecv AVERROR_EOF y] \<and>
                avcodec_receive_frame L u = (AVERROR_EOF, y))) \<and>
      (rc res = 0 \<or> rc res = 1 \<or> rc res < 0))"
proof -
  have loop: "ff_next_frame L (k + Suc n) p want t = map_option Inr (Some r)"
    if "fmt p = Some c" "vdec p = Some d" "frame p" "pkt p" "setup_sws L p t = (0, p1, t1)"
      "pump_steps L c want k (p1, t1) = Some (p', t')" "pump_iter L c p' want t' = Inl r"
    for r
  proof -
    have "ff_next_frame L (k + Suc n) p want t
        = map_option Inr (pump_loop L (k + Suc n) c p1 want t1)"
      using that(1-5) by (rule ff_next_frame_loop)
    also have "pump_loop L (k + Suc n) c p1 want t1 = pump_loop L (Suc n) c p' want t'"
      using that(6) by (rule pump_loop_steps)
    finally show ?thesis by (simp add: that(7))
  qed
  have itA: "pump_iter L c p' want t' =
      Inl \<lparr>rc = 0, out_ib = None, out_pts = None, player = p'\<lparr>at_eof := 1\<rparr>,
           calls = t' @ [EvRead AVERROR_EOF pk, EvSend None rs, EvRecv AVERROR_EOF x]\<rparr>"
    if "at_eof p' = 0" "av_read_frame L t' = (AVERROR_EOF, pk)"
      "avcodec_send_packet L (t' @ [EvRead AVERROR_EOF pk]) None = rs"
      "avcodec_receive_frame L (t' @ [EvRead AVERROR_EOF pk, EvSend None rs]) = (AVERROR_EOF, x)"
    using that averror_neg by (simp add: pump_iter_def receive_step_def Let_def)
  have itC: "pump_iter L c p' want t' =
      Inl \<lparr>rc = 0, out_ib = None, out_pts = None, player = p',
           calls = t' @ [EvSend None rs, EvRecv AVERROR_EOF x]\<rparr>"
    if "at_eof p' \<noteq> 0" "avcodec_send_packet L t' None = rs"
      "\<not> (rs < 0 \<and> rs \<noteq> AVERROR_EAGAIN)"
      "avcodec_receive_frame L (t' @ [EvSend None rs]) = (AVERROR_EOF, x)"
    using that averror_neg by (auto simp add: pump_iter_def receive_step_def Let_def)
  have itR: "pump_iter L c p' want t' =
      Inl \<lparr>rc = rs, out_ib = None, out_pts = None, player = p', calls = t' @ [EvSend None rs]\<rparr>"
    if "at_eof p' \<noteq> 0" "avcodec_send_packet L t' None = rs" "rs < 0" "rs \<noteq> AVERROR_EAGAIN"
    using that by (simp add: pump_iter_def Let_def)
  have safe: "(\<forall>u r y rest. calls res = t @ u @ EvRecv r y # rest \<longrightarrow>
         avcodec_receive_frame L (t @ u) = (r, y) \<and>
         (r = AVERROR_EOF \<longrightarrow> rest = [] \<and> rc res = 0 \<and> out_ib res = None)) \<and>
      (rc res = 0 \<longrightarrow>
         out_ib res = None \<and>
         (\<exists>u y. calls res = u @ [EvRecv AVERROR_EOF y] \<and>
                avcodec_receive_frame L u = (AVERROR_EOF, y))) \<and>
      (rc res = 0 \<or> rc res = 1 \<or> rc res < 0)"
    if ret: "ff_next_frame L m p want t = Some (Inr res)" for res
  proof -
    from ff_next_frame_returns [OF ret] have rw: "returns_well res" .
    from ff_next_frame_faithful [OF ret]
    obtain es where es: "calls res = t @ es" "es \<noteq> []" "recv_faithful L t es" by blast
    have zero: "rc res = 0 \<and> out_ib res = None" if "last es = EvRecv AVERROR_EOF y" for y
      using that rw es(1,2) by (auto simp add: returns_well_def)
    have a: "avcodec_receive_frame L (t @ u) = (r, y) \<and>
         (r = AVERROR_EOF \<longrightarrow> rest = [] \<and> rc res = 0 \<and> out_ib res = None)"
      if "calls res = t @ u @ EvRecv r y # rest" for u r y rest
    proof -
      from that es(1) have e: "es = u @ EvRecv r y # rest" by simp
      from recv_faithful_at [OF es(3) [unfolded e]]
      have f: "avcodec_receive_frame L (t @ u) = (r, y)" "r = AVERROR_EOF \<longrightarrow> rest = []"
        by auto
      show ?thesis
      proof (cases "r = AVERROR_EOF")
        case True
        with f have "rest = []" by simp
        with e True have "last es = EvRecv AVERROR_EOF y" by simp
        from zero [OF this] f True \<open>rest = []\<close> show ?thesis by simp
      next
        case False
        with f show ?thesis by simp
      qed
    qed
    have b: "out_ib res = None \<and> (\<exists>u y. calls res = u @ [EvRecv AVERROR_EOF y] \<and>
                avcodec_receive_frame L u = (AVERROR_EOF, y))" if "rc res = 0"
    proof -
      from that rw obtain y where l: "last (calls res) = EvRecv AVERROR_EOF y"
        and o: "out_ib res = None"
        by (auto simp add: returns_well_def)
      with es(1,2) have "last es = EvRecv AVERROR_EOF y" by simp
      with es(2) have e: "es = butlast es @ EvRecv AVERROR_EOF y # []"
        by (metis append_butlast_last_id)
      from recv_faithful_at [of L t "butlast es" AVERROR_EOF y "[]"] es(3) e
      have "avcodec_receive_frame L (t @ butlast es) = (AVERROR_EOF, y)" by simp
      moreover from es(1) e have "calls res = (t @ butlast es) @ [EvRecv AVERROR_EOF y]"
        by (metis append_assoc)
      ultimately show ?thesis using o by blast
    qed
    from rw have "rc res = 0 \<or> rc res = 1 \<or> rc res < 0"
      by (auto simp add: returns_well_def)
    with a b show ?thesis by blast
  qed
  from loop itA itC itR safe show ?thesis
    by (simp only: map_option_case option.case) blast
qed


section \<open>The decode pump on the sample libraries\<close>

lemma single_packet_lib_sel:
  "sws_getContext (single_packet_lib ts) t = True"
  "avcodec_send_packet (single_packet_lib ts) t q = 0"
  "CVPixelBufferCreate (single_packet_lib ts) t = Some (length t)"
  "av_read_frame (single_packet_lib ts) t =
     (if filter is_read t = [] then (0, one_packet ts) else (AVERROR_EOF, blank_packet))"
  "avcodec_receive_frame (single_packet_lib ts) t =
     (if filter is_send t = [] then (AVERROR_EAGAIN, AV_NOPTS_VALUE)
      else if length (filter is_send t) = 1 then (0, ts)
      else (AVERROR_EOF, AV_NOPTS_VALUE))"
  by (simp_all add: single_packet_lib_def)

lemma first_call:
  "ff_next_frame (single_packet_lib 7) (Suc 0) clip_session True [] =
     Some (Inr \<lparr>rc = 1, out_ib = Some 4, out_pts = Some (Fin (7 / 30)),
                player = clip_session\<lparr>sws := True\<rparr>, calls = clip_trace_1\<rparr>)"
  by (simp add: ff_next_frame_def setup_sws_def pump_iter_def receive_step_def Let_def
        single_packet_lib_sel clip_session_def clip_trace_1_def one_packet_def
        AVERROR_EOF_def AVERROR_EAGAIN_def AV_NOPTS_VALUE_def)
     (simp add: clip_def clip_stream_def av_q2d_def d_of_int_def)

lemma second_call:
  "ff_next_frame (single_packet_lib 7) (Suc 0) (clip_session\<lparr>sws := True\<rparr>) True clip_trace_1 =
     Some (Inr \<lparr>rc = 0, out_ib = None, out_pts = None,
                player = clip_session\<lparr>sws := True, at_eof := 1\<rparr>, calls = clip_trace_2\<rparr>)"
  by (simp add: ff_next_frame_def setup_sws_def pump_iter_def receive_step_def Let_def
        single_packet_lib_sel clip_session_def clip_trace_1_def clip_trace_2_def
        AVERROR_EOF_def AVERROR_EAGAIN_def AV_NOPTS_VALUE_def)

theorem drained_returns_zero_witness:
  "ff_next_frame (single_packet_lib 7) (Suc 0) (clip_session\<lparr>sws := True\<rparr>) True clip_trace_1 =
     Some (Inr \<lparr>rc = 0, out_ib = None, out_pts = None,
                player = clip_session\<lparr>sws := True, at_eof := 1\<rparr>, calls = clip_trace_2\<rparr>) \<and>
   ff_next_frame (single_packet_lib 7) (Suc 0) (clip_session\<lparr>sws := True, at_eof := 1\<rparr>) True
       clip_trace_2 =
     Some (Inr \<lparr>rc = 0, out_ib = None, out_pts = None,
                player = clip_session\<lparr>sws := True, at_eof := 1\<rparr>,
                calls = clip_trace_2 @ [EvSend None 0, EvRecv AVERROR_EOF AV_NOPTS_VALUE]\<rparr>)"
proof -
  let ?L = "single_packet_lib 7"
  let ?d = "\<lparr>width = 1920, height = 1080\<rparr>"
  let ?p = "clip_session\<lparr>sws := True\<rparr>"
  let ?q = "clip_session\<lparr>sws := True, at_eof := 1\<rparr>"
  have hp: "fmt ?p = Some clip" "vdec ?p = Some ?d" "frame ?p" "pkt ?p"
      "setup_sws ?L ?p clip_trace_1 = (0, ?p, clip_trace_1)"
      "pump_steps ?L clip True 0 (?p, clip_trace_1) = Some (?p, clip_trace_1)"
      "at_eof ?p = 0"
      "av_read_frame ?L clip_trace_1 = (AVERROR_EOF, blank_packet)"
      "avcodec_send_packet ?L (clip_trace_1 @ [EvRead AVERROR_EOF blank_packet]) None = 0"
      "avcodec_receive_frame ?L
         (clip_trace_1 @ [EvRead AVERROR_EOF blank_packet, EvSend None 0])
         = (AVERROR_EOF, AV_NOPTS_VALUE)"
    by (simp_all add: clip_session_def setup_sws_def single_packet_lib_sel clip_trace_1_def)
  have hq: "fmt ?q = Some clip" "vdec ?q = Some ?d" "frame ?q" "pkt ?q"
      "setup_sws ?L ?q clip_trace_2 = (0, ?q, clip_trace_2)"
      "pump_steps ?L clip True 0 (?q, clip_trace_2) = Some (?q, clip_trace_2)"
      "at_eof ?q \<noteq> 0"
      "avcodec_send_packet ?L clip_trace_2 None = 0"
      "\<not> ((0 :: int) < 0 \<and> 0 \<noteq> AVERROR_EAGAIN)"
      "avcodec_receive_frame ?L (clip_trace_2 @ [EvSend None 0]) = (AVERROR_EOF, AV_NOPTS_VALUE)"
    by (simp_all add: clip_session_def setup_sws_def single_packet_lib_sel clip_trace_2_def
          clip_trace_1_def)
  from drained_returns_zero
         [where p = ?p and c = clip and d = ?d and L = ?L and t = clip_trace_1 and ?p1.0 = ?p
            and ?t1.0 = clip_trace_1 and want = True and k = 0 and p' = ?p
            and t' = clip_trace_1 and pk = blank_packet and rs = 0 and x = AV_NOPTS_VALUE
            and n = 0]
       hp
  have one: "ff_next_frame ?L (Suc 0) ?p True clip_trace_1 =
     Some (Inr \<lparr>rc = 0, out_ib = None, out_pts = None, player = ?q, calls = clip_trace_2\<rparr>)"
    by (simp add: clip_trace_2_def)
  from drained_returns_zero
         [where p = ?q and c = clip and d = ?d and L = ?L and t = clip_trace_2 and ?p1.0 = ?q
            and ?t1.0 = clip_trace_2 and want = True and k = 0 and p' = ?q
            and t' = clip_trace_2 and rs = 0 and x = AV_NOPTS_VALUE and n = 0]
       hq
  have two: "ff_next_frame ?L (Suc 0) ?q True clip_trace_2 =
     Some (Inr \<lparr>rc = 0, out_ib = None, out_pts = None, player = ?q,
                calls = clip_trace_2 @ [EvSend None 0, EvRecv AVERROR_EOF AV_NOPTS_VALUE]\<rparr>)"
    by simp
  from one two show ?thesis by simp
qed

theorem read_error_propagates_witness:
  "ff_next_frame failing_lib (Suc 0) clip_session True [] =
     Some (Inr \<lparr>rc = - 5, out_ib = None, out_pts = None, player = clip_session\<lparr>sws := True\<rparr>,
                calls = [EvSwsGetContext True, EvRead (- 5) blank_packet]\<rparr>) \<and>
   at_eof (clip_session\<lparr>sws := True\<rparr>) = at_eof clip_session"
proof -
  let ?p1 = "clip_session\<lparr>sws := True\<rparr>"
  have h: "fmt clip_session = Some clip" "vdec clip_session = Some \<lparr>width = 1920, height = 1080\<rparr>"
      "frame clip_session" "pkt clip_session"
      "setup_sws failing_lib clip_session [] = (0, ?p1, [EvSwsGetContext True])"
      "pump_steps failing_lib clip True 0 (?p1, [EvSwsGetContext True])
         = Some (?p1, [EvSwsGetContext True])"
      "at_eof ?p1 = 0"
      "av_read_frame failing_lib [EvSwsGetContext True] = (- 5, blank_packet)"
      "(- 5 :: int) < 0" "(- 5 :: int) \<noteq> AVERROR_EOF"
    by (simp_all add: clip_session_def failing_lib_def setup_sws_def single_packet_lib_sel
          AVERROR_EOF_def)
  from read_error_propagates [OF h, of 0]
  show ?thesis by simp
qed

theorem out_buffer_null_unless_frame_witness:
  "rc (projr (the (ff_next_frame (single_packet_lib 7) (Suc 0) clip_session True []))) = 1 \<and>
   out_ib (projr (the (ff_next_frame (single_packet_lib 7) (Suc 0) clip_session True []))) = Some 4 \<and>
   rc (projr (the (ff_next_frame (single_packet_lib 7) (Suc 0) (clip_session\<lparr>sws := True\<rparr>)
                     True clip_trace_1))) = 0 \<and>
   out_ib (projr (the (ff_next_frame (single_packet_lib 7) (Suc 0) (clip_session\<lparr>sws := True\<rparr>)
                     True clip_trace_1))) = None"
  using out_buffer_null_unless_frame
          [of "single_packet_lib 7" "Suc 0" clip_session True "[]"]
        out_buffer_null_unless_frame
          [of "single_packet_lib 7" "Suc 0" "clip_session\<lparr>sws := True\<rparr>" True clip_trace_1]
  by (simp add: first_call second_call)

section \<open>Closing a session\<close>

text \<open>
  C3, as the code has it. Closing the null pointer changes nothing. Closing a live
  session releases the conversion context (when there is one), the frame and packet
  buffers, the decoder and the source, in that order, and then frees the session
  itself. After that the pointer is dangling: a second \<^verbatim>\<open>ff_close\<close> on it reads freed
  memory, which is a fault, not a no-op.
\<close>

theorem close_releases:
  "ff_close h None t = Inr (h, t) \<and>
   (h a = Some s \<and> frame s \<and> pkt s \<and> vdec s \<noteq> None \<and> fmt s \<noteq> None \<longrightarrow>
      ff_close h (Some a) t =
        Inr (h(a := None),
             t @ (if sws s then [EvSwsFree] else [])
               @ [EvFrameFree, EvPacketFree, EvCodecFree, EvCloseInput, EvFree])) \<and>
   (h a = None \<longrightarrow> ff_close h (Some a) t = Inl DanglingPointer) \<and>
   (\<forall>h' t'. ff_close h (Some a) t = Inr (h', t') \<longrightarrow>
      h' a = None \<and> ff_close h' (Some a) t' = Inl DanglingPointer)"
  by (auto simp add: ff_close_def split: option.splits)

text \<open>
  C3 as stated fails for the second close: the first close of the clip's session frees
  it, and closing the same pointer again faults.
\<close>

theorem close_twice_counterexample:
  "ff_close [0 \<mapsto> clip_session] (Some 0) [] =
     Inr (Map.empty, [EvFrameFree, EvPacketFree, EvCodecFree, EvCloseInput, EvFree]) \<and>
   ff_close Map.empty (Some 0) [EvFrameFree, EvPacketFree, EvCodecFree, EvCloseInput, EvFree] =
     Inl DanglingPointer"
  by (simp add: ff_close_def clip_session_def)

theorem close_releases_witness:
  "ff_close [0 \<mapsto> clip_session\<lparr>sws := True\<rparr>] None clip_trace_2 =
     Inr ([0 \<mapsto> clip_session\<lparr>sws := True\<rparr>], clip_trace_2) \<and>
   ff_close [0 \<mapsto> clip_session\<lparr>sws := True\<rparr>] (Some 0) clip_trace_2 =
     Inr (Map.empty,
          clip_trace_2 @ [EvSwsFree, EvFrameFree, EvPacketFree, EvCodecFree, EvCloseInput, EvFree]) \<and>
   ff_close [0 \<mapsto> clip_session\<lparr>sws := True\<rparr>] (Some 1) clip_trace_2 = Inl DanglingPointer"
  using close_releases [of "[0 \<mapsto> clip_session\<lparr>sws := True\<rparr>]" clip_trace_2 0
          "clip_session\<lparr>sws := True\<rparr>"]
    close_releases [of "[0 \<mapsto> clip_session\<lparr>sws := True\<rparr>]" clip_trace_2 1]
  by (simp add: clip_session_def)

end
